theory Spec2Isabelle
  imports Main
begin

text \<open>
  The exercise tracker: an Express application over a Mongoose store with four API routes,
  to create a user, to list the users, to add an exercise to the log of a user and to read
  that log, filtered by a date range and a limit. The functions \<open>checkDate\<close> and
  \<open>isValidDuration\<close> and the four handlers are embedded below as functions over the
  request values, the store and what the handlers take from their environment; the
  properties of the validator, of the date normalization, of the log filter and of the
  handlers follow.
\<close>

section \<open>Values of the JavaScript runtime\<close>

text \<open>
  A request field (\<open>req.body.x\<close>, \<open>req.query.x\<close>) is whatever the JSON and
  URL-encoded body parsers produce. \<open>JNum n\<close> is the Number with the integer value \<open>n\<close>,
  for magnitudes below \<open>10^21\<close>, where \<open>Number.prototype.toString\<close> gives the decimal
  numeral; fractional Numbers and larger magnitudes are not represented. Strings are lists
  of code units below 256. An object is its list of own properties.
\<close>

datatype jsval =
    JUndefined
  | JNull
  | JBool bool
  | JNum int
  | JStr string
  | JArr "jsval list"
  | JObj "(string \<times> jsval) list"

text \<open>The result of a numeric operation: \<open>NaN\<close> or an integer.\<close>

datatype number = NaN | Fin int

text \<open>An operation that can throw: \<open>Inl TypeError\<close> is the exception.\<close>

datatype exn = TypeError

text \<open>ToBoolean: what \<open>!x\<close> and \<open>if (x)\<close> test.\<close>

fun truthy :: "jsval \<Rightarrow> bool" where
  "truthy JUndefined = False"
| "truthy JNull = False"
| "truthy (JBool b) = b"
| "truthy (JNum n) = (n \<noteq> 0)"
| "truthy (JStr s) = (s \<noteq> [])"
| "truthy (JArr xs) = True"
| "truthy (JObj kvs) = True"

subsection \<open>Decimal numerals\<close>

definition digit_char :: "nat \<Rightarrow> char" where
  "digit_char n = char_of (48 + n)"

fun decimal :: "nat \<Rightarrow> string" where
  "decimal n = (if n < 10 then [digit_char n] else decimal (n div 10) @ [digit_char (n mod 10)])"

declare decimal.simps [simp del]

definition decimal_int :: "int \<Rightarrow> string" where
  "decimal_int i = (if i < 0 then CHR ''-'' # decimal (nat (- i)) else decimal (nat i))"

text \<open>\<open>String(n).padStart(w, "0")\<close>.\<close>

definition pad_zero :: "nat \<Rightarrow> string \<Rightarrow> string" where
  "pad_zero w s = replicate (w - length s) CHR ''0'' @ s"

subsection \<open>ToString\<close>

fun join :: "string \<Rightarrow> string list \<Rightarrow> string" where
  "join sep [] = []"
| "join sep [s] = s"
| "join sep (s # t # ss) = s @ sep @ join sep (t # ss)"

fun sequence :: "(exn + 'a) list \<Rightarrow> exn + 'a list" where
  "sequence [] = Inr []"
| "sequence (x # xs) =
     (case x of Inl e \<Rightarrow> Inl e
      | Inr v \<Rightarrow> (case sequence xs of Inl e \<Rightarrow> Inl e | Inr vs \<Rightarrow> Inr (v # vs)))"

text \<open>
  ToString of a value. An array is joined with commas, \<open>undefined\<close> and \<open>null\<close>
  elements giving the empty string. A parsed object has no callable property of its own:
  with an own \<open>toString\<close> property neither conversion method yields a primitive and
  the conversion throws; without one, \<open>Object.prototype.toString\<close> answers.
\<close>

fun ToString :: "jsval \<Rightarrow> exn + string" where
  "ToString JUndefined = Inr ''undefined''"
| "ToString JNull = Inr ''null''"
| "ToString (JBool b) = Inr (if b then ''true'' else ''false'')"
| "ToString (JNum n) = Inr (decimal_int n)"
| "ToString (JStr s) = Inr s"
| "ToString (JArr xs) =
     (case sequence (map (\<lambda>x. if x = JUndefined \<or> x = JNull then Inr [] else ToString x) xs) of
        Inl e \<Rightarrow> Inl e
      | Inr ss \<Rightarrow> Inr (join '','' ss))"
| "ToString (JObj kvs) =
     (if ''toString'' \<in> set (map fst kvs) then Inl TypeError else Inr ''[object Object]'')"

subsection \<open>parseInt\<close>

text \<open>White space and line terminators among the code units below 256.\<close>

definition isWhiteSpace :: "char \<Rightarrow> bool" where
  "isWhiteSpace c = ((of_char c :: nat) \<in> {9, 10, 11, 12, 13, 32, 160})"

text \<open>The value of a character as a digit: \<open>0-9\<close>, then \<open>a-z\<close> or \<open>A-Z\<close> for 10 to 35.\<close>

definition digitValue :: "char \<Rightarrow> nat option" where
  "digitValue c =
     (let k = (of_char c :: nat) in
      if 48 \<le> k \<and> k \<le> 57 then Some (k - 48)
      else if 97 \<le> k \<and> k \<le> 122 then Some (k - 87)
      else if 65 \<le> k \<and> k \<le> 90 then Some (k - 55)
      else None)"

definition isRadixDigit :: "nat \<Rightarrow> char \<Rightarrow> bool" where
  "isRadixDigit R c = (case digitValue c of None \<Rightarrow> False | Some v \<Rightarrow> v < R)"

definition radixValue :: "nat \<Rightarrow> string \<Rightarrow> nat" where
  "radixValue R Z = foldl (\<lambda>acc c. acc * R + the (digitValue c)) 0 Z"

text \<open>
  \<open>parseInt(string, radix)\<close> on a string, \<open>radix = None\<close> for a call with one argument:
  leading white space is dropped, one sign is read, a \<open>0x\<close> prefix is stripped only when
  the radix is absent, 0 or 16, and the longest prefix of digits of the radix is the value;
  no digit at all gives \<open>NaN\<close>. The Number returned is the double nearest to the integer
  here; below \<open>2^53\<close> they are equal, and a comparison with 0 or 600 is the same for both.
\<close>

definition parseIntStr :: "string \<Rightarrow> nat option \<Rightarrow> number" where
  "parseIntStr inputString radix =
     (let S = dropWhile isWhiteSpace inputString;
          sign = (if S \<noteq> [] \<and> hd S = CHR ''-'' then - 1 else 1 :: int);
          S1 = (if S \<noteq> [] \<and> (hd S = CHR ''+'' \<or> hd S = CHR ''-'') then tl S else S);
          R0 = (case radix of None \<Rightarrow> 0 | Some r \<Rightarrow> r)
      in if R0 \<noteq> 0 \<and> (R0 < 2 \<or> 36 < R0) then NaN
         else
           let stripPrefix = (R0 = 0 \<or> R0 = 16);
               R1 = (if R0 = 0 then 10 else R0);
               hex = (stripPrefix \<and> (take 2 S1 = ''0x'' \<or> take 2 S1 = ''0X''));
               S2 = (if hex then drop 2 S1 else S1);
               R = (if hex then 16 else R1);
               Z = takeWhile (isRadixDigit R) S2
           in if Z = [] then NaN else Fin (sign * int (radixValue R Z)))"

definition parseInt :: "jsval \<Rightarrow> nat option \<Rightarrow> exn + number" where
  "parseInt v radix = (case ToString v of Inl e \<Rightarrow> Inl e | Inr s \<Rightarrow> Inr (parseIntStr s radix))"

section \<open>The duration validator\<close>

text \<open>
  \<^verbatim>\<open>const numericValue = parseInt(duration, 10);
  return !isNaN(numericValue) && numericValue >= 0 && numericValue <= 600;\<close>
\<close>

definition isValidDuration :: "jsval \<Rightarrow> exn + bool" where
  "isValidDuration duration =
     (case parseInt duration (Some 10) of
        Inl e \<Rightarrow> Inl e
      | Inr numericValue \<Rightarrow>
          Inr (case numericValue of NaN \<Rightarrow> False | Fin n \<Rightarrow> 0 \<le> n \<and> n \<le> 600))"

text \<open>
  An integer numeral: an optional minus sign followed by one or more decimal digits, and
  the integer it denotes. Used only to state properties.
\<close>

definition integer_numeral :: "string \<Rightarrow> int option" where
  "integer_numeral s =
     (let neg = (s \<noteq> [] \<and> hd s = CHR ''-'');
          ds = (if neg then tl s else s)
      in if ds \<noteq> [] \<and> list_all (isRadixDigit 10) ds
         then Some ((if neg then - 1 else 1) * int (radixValue 10 ds))
         else None)"

section \<open>Dates of the runtime\<close>

text \<open>
  A time value is a number of milliseconds since 1970-01-01T00:00:00Z, or \<open>NaN\<close> for an
  invalid Date. The functions below are those of the language's Date objects, on integers;
  \<open>div\<close> and \<open>mod\<close> on \<open>int\<close> round down, as \<open>floor\<close> and the language's modulo do.
\<close>

definition msPerDay :: int where
  "msPerDay = 86400000"

definition Day :: "int \<Rightarrow> int" where
  "Day t = t div msPerDay"

definition DaysInYear :: "int \<Rightarrow> int" where
  "DaysInYear y =
     (if y mod 4 \<noteq> 0 then 365
      else if y mod 100 \<noteq> 0 then 366
      else if y mod 400 \<noteq> 0 then 365
      else 366)"

definition DayFromYear :: "int \<Rightarrow> int" where
  "DayFromYear y =
     365 * (y - 1970) + (y - 1969) div 4 - (y - 1901) div 100 + (y - 1601) div 400"

text \<open>
  The year of a day number: the largest \<open>y\<close> with \<open>DayFromYear y \<le> d\<close>, found from
  the estimate \<open>d / 365.2425\<close>, which is off by at most one.
\<close>

definition YearFromDay :: "int \<Rightarrow> int" where
  "YearFromDay d =
     (let e = 1970 + (400 * d) div 146097
      in if d < DayFromYear e then e - 1
         else if DayFromYear (e + 1) \<le> d then e + 1
         else e)"

definition InLeapYear :: "int \<Rightarrow> bool" where
  "InLeapYear y = (DaysInYear y = 366)"

text \<open>Month (0 to 11) and day of the month (1 to 31) of a day within its year.\<close>

definition MonthFromDayInYear :: "int \<Rightarrow> bool \<Rightarrow> int" where
  "MonthFromDayInYear d leap =
     (let L = (if leap then 1 else 0) in
      if d < 31 then 0
      else if d < 59 + L then 1
      else if d < 90 + L then 2
      else if d < 120 + L then 3
      else if d < 151 + L then 4
      else if d < 181 + L then 5
      else if d < 212 + L then 6
      else if d < 243 + L then 7
      else if d < 273 + L then 8
      else if d < 304 + L then 9
      else if d < 334 + L then 10
      else 11)"

text \<open>The day within the year on which month \<open>m\<close> (0 to 11) starts.\<close>

definition monthStart :: "int \<Rightarrow> bool \<Rightarrow> int" where
  "monthStart m leap =
     [0, 31, 59, 90, 120, 151, 181, 212, 243, 273, 304, 334] ! nat m
       + (if leap \<and> 2 \<le> m then 1 else 0)"

definition YearFromTime :: "int \<Rightarrow> int" where
  "YearFromTime t = YearFromDay (Day t)"

definition DayWithinYear :: "int \<Rightarrow> int" where
  "DayWithinYear t = Day t - DayFromYear (YearFromTime t)"

definition MonthFromTime :: "int \<Rightarrow> int" where
  "MonthFromTime t = MonthFromDayInYear (DayWithinYear t) (InLeapYear (YearFromTime t))"

definition DateFromTime :: "int \<Rightarrow> int" where
  "DateFromTime t =
     DayWithinYear t - monthStart (MonthFromTime t) (InLeapYear (YearFromTime t)) + 1"

definition WeekDay :: "int \<Rightarrow> int" where
  "WeekDay t = (Day t + 4) mod 7"

text \<open>
  MakeDay on integers: months beyond 0 to 11 carry into the year, and the day of the month
  is added as a plain number of days, whatever its size.
\<close>

definition MakeDay :: "int \<Rightarrow> int \<Rightarrow> int \<Rightarrow> int" where
  "MakeDay year month date =
     (let ym = year + month div 12;
          mn = month mod 12
      in DayFromYear ym + monthStart mn (InLeapYear ym) + date - 1)"

definition TimeClip :: "int \<Rightarrow> number" where
  "TimeClip t = (if 8640000000000000 < \<bar>t\<bar> then NaN else Fin t)"

text \<open>
  \<open>Date.UTC(year, month, date)\<close>: a year from 0 to 99 stands for 1900 to 1999; the time
  of day is 0.
\<close>

definition Date_UTC :: "number \<Rightarrow> number \<Rightarrow> number \<Rightarrow> number" where
  "Date_UTC year month date =
     (case (year, month, date) of
        (Fin y, Fin m, Fin dt) \<Rightarrow>
          (let yr = (if 0 \<le> y \<and> y \<le> 99 then 1900 + y else y)
           in TimeClip (MakeDay yr m dt * msPerDay))
      | _ \<Rightarrow> NaN)"

definition dayNames :: "string list" where
  "dayNames = [''Sun'', ''Mon'', ''Tue'', ''Wed'', ''Thu'', ''Fri'', ''Sat'']"

definition monthNames :: "string list" where
  "monthNames = [''Jan'', ''Feb'', ''Mar'', ''Apr'', ''May'', ''Jun'',
                 ''Jul'', ''Aug'', ''Sep'', ''Oct'', ''Nov'', ''Dec'']"

text \<open>
  The date part of the string form of a time value whose fields are read as they stand:
  weekday, month, day of the month on two digits, year on at least four.
\<close>

definition DateString :: "int \<Rightarrow> string" where
  "DateString t =
     (let yv = YearFromTime t
      in dayNames ! nat (WeekDay t) @ '' '' @ monthNames ! nat (MonthFromTime t) @ '' ''
         @ pad_zero 2 (decimal (nat (DateFromTime t))) @ '' ''
         @ (if 0 \<le> yv then [] else ''-'') @ pad_zero 4 (decimal (nat \<bar>yv\<bar>)))"

text \<open>
  What the source takes from its runtime: the offset of local time, in minutes, that
  \<open>getTimezoneOffset\<close> returns for a Date at a given instant (UTC minus local time, so it
  depends on the instant where the zone has daylight saving), and what \<open>Date.parse\<close>
  makes of a string that is not a calendar date \<open>YYYY-MM-DD\<close>: the other forms of the
  date-time format, and the strings that the language leaves to the implementation.
\<close>

record runtime =
  tzOffset :: "int \<Rightarrow> int"
  dateParseOther :: "string \<Rightarrow> number"

definition getTimezoneOffset :: "runtime \<Rightarrow> number \<Rightarrow> number" where
  "getTimezoneOffset rt tv = (case tv of NaN \<Rightarrow> NaN | Fin t \<Rightarrow> Fin (tzOffset rt t))"

definition LocalTime :: "runtime \<Rightarrow> int \<Rightarrow> int" where
  "LocalTime rt t = t - tzOffset rt t * 60000"

definition toDateString :: "runtime \<Rightarrow> number \<Rightarrow> string" where
  "toDateString rt tv =
     (case tv of NaN \<Rightarrow> ''Invalid Date'' | Fin t \<Rightarrow> DateString (LocalTime rt t))"

text \<open>\<open>string.split("-")\<close>: the pieces between the separators, always at least one.\<close>

fun split :: "char \<Rightarrow> string \<Rightarrow> string list" where
  "split sep [] = [[]]"
| "split sep (c # cs) =
     (if c = sep then [] # split sep cs
      else (case split sep cs of p # ps \<Rightarrow> (c # p) # ps | [] \<Rightarrow> [[c]]))"

text \<open>\<open>parts[i]\<close>, \<open>undefined\<close> beyond the end.\<close>

definition part :: "string list \<Rightarrow> nat \<Rightarrow> jsval" where
  "part parts i = (if i < length parts then JStr (parts ! i) else JUndefined)"

definition parseInt1 :: "jsval \<Rightarrow> number" where
  "parseInt1 v =
     (case v of JStr s \<Rightarrow> parseIntStr s None | _ \<Rightarrow> parseIntStr ''undefined'' None)"

definition minus1 :: "number \<Rightarrow> number" where
  "minus1 x = (case x of NaN \<Rightarrow> NaN | Fin n \<Rightarrow> Fin (n - 1))"

section \<open>Checking and formatting the date\<close>

text \<open>
  \<^verbatim>\<open>const checkDate = (date) => {
    if (!date) {
      return new Date(Date.now()).toDateString();
    } else {
      const parts = date.split("-");
      const year = parseInt(parts[0]);
      const month = parseInt(parts[1]) - 1;
      const day = parseInt(parts[2]);
      const utcDate = new Date(Date.UTC(year, month, day));
      return new Date(
        utcDate.getTime() + utcDate.getTimezoneOffset() * 60000
      ).toDateString();
    }
  };\<close>
  \<open>now\<close> is what \<open>Date.now()\<close> returns. A value that is not a string has no \<open>split\<close>
  method that can be called, and the call throws.
\<close>

definition checkDate :: "runtime \<Rightarrow> int \<Rightarrow> jsval \<Rightarrow> exn + string" where
  "checkDate rt now date =
     (if \<not> truthy date then Inr (toDateString rt (TimeClip now))
      else case date of
        JStr s \<Rightarrow>
          (let parts = split CHR ''-'' s;
               year = parseInt1 (part parts 0);
               month = minus1 (parseInt1 (part parts 1));
               day = parseInt1 (part parts 2);
               utcDate = Date_UTC year month day
           in Inr (toDateString rt
                (case (utcDate, getTimezoneOffset rt utcDate) of
                   (Fin t, Fin off) \<Rightarrow> TimeClip (t + off * 60000)
                 | _ \<Rightarrow> NaN)))
      | _ \<Rightarrow> Inl TypeError)"

text \<open>
  The calendar days: month \<open>m\<close> from 1 to 12 and day \<open>d\<close> from 1 to the length of the
  month in year \<open>y\<close>. Used only to state properties.
\<close>

definition DaysInMonth :: "int \<Rightarrow> int \<Rightarrow> int" where
  "DaysInMonth y m =
     (if m = 2 then (if InLeapYear y then 29 else 28)
      else if m = 4 \<or> m = 6 \<or> m = 9 \<or> m = 11 then 30
      else 31)"

definition calendar_day :: "int \<Rightarrow> int \<Rightarrow> int \<Rightarrow> bool" where
  "calendar_day y m d = (1 \<le> m \<and> m \<le> 12 \<and> 1 \<le> d \<and> d \<le> DaysInMonth y m)"

text \<open>The day of the week of a calendar day, 0 for Sunday: 1970-01-01 was a Thursday.\<close>

definition weekday_of :: "int \<Rightarrow> int \<Rightarrow> int \<Rightarrow> int" where
  "weekday_of y m d = (MakeDay y (m - 1) d + 4) mod 7"

section \<open>Parsing dates\<close>

text \<open>
  \<open>Date.parse\<close>: a calendar date written \<open>YYYY-MM-DD\<close> is midnight UTC of that day;
  every other string is left to the runtime.
\<close>

definition parse_iso_date :: "string \<Rightarrow> int option" where
  "parse_iso_date s =
     (if length s \<noteq> 10 then None
      else
        let ys = take 4 s; ms = take 2 (drop 5 s); ds = drop 8 s;
            y = int (radixValue 10 ys); m = int (radixValue 10 ms); d = int (radixValue 10 ds)
        in if s ! 4 = CHR ''-'' \<and> s ! 7 = CHR ''-''
              \<and> list_all (isRadixDigit 10) (ys @ ms @ ds) \<and> calendar_day y m d
           then Some (MakeDay y (m - 1) d * msPerDay)
           else None)"

definition Date_parse :: "runtime \<Rightarrow> string \<Rightarrow> number" where
  "Date_parse rt s =
     (case parse_iso_date s of Some t \<Rightarrow> TimeClip t | None \<Rightarrow> dateParseOther rt s)"

text \<open>
  \<open>new Date(value)\<close>: a string, or an array or object through its string form, is
  parsed; any other value is taken as a number of milliseconds.
\<close>

definition newDate :: "runtime \<Rightarrow> jsval \<Rightarrow> exn + number" where
  "newDate rt v =
     (case v of
        JUndefined \<Rightarrow> Inr NaN
      | JNull \<Rightarrow> Inr (TimeClip 0)
      | JBool b \<Rightarrow> Inr (TimeClip (if b then 1 else 0))
      | JNum n \<Rightarrow> Inr (TimeClip n)
      | JStr s \<Rightarrow> Inr (Date_parse rt s)
      | _ \<Rightarrow> (case ToString v of Inl e \<Rightarrow> Inl e | Inr s \<Rightarrow> Inr (Date_parse rt s)))"

text \<open>\<open>a >= b\<close> and \<open>a <= b\<close> on Dates compare the time values; with \<open>NaN\<close> both are false.\<close>

definition date_ge :: "number \<Rightarrow> number \<Rightarrow> bool" where
  "date_ge a b = (case (a, b) of (Fin x, Fin y) \<Rightarrow> y \<le> x | _ \<Rightarrow> False)"

definition date_le :: "number \<Rightarrow> number \<Rightarrow> bool" where
  "date_le a b = (case (a, b) of (Fin x, Fin y) \<Rightarrow> x \<le> y | _ \<Rightarrow> False)"

text \<open>
  \<open>array.slice(0, end)\<close>: \<open>NaN\<close> counts as 0, and a negative end counts from the end
  of the array.
\<close>

definition slice0 :: "'a list \<Rightarrow> number \<Rightarrow> 'a list" where
  "slice0 xs e =
     (case e of
        NaN \<Rightarrow> []
      | Fin n \<Rightarrow> if n < 0 then take (nat (int (length xs) + n)) xs else take (nat n) xs)"

section \<open>The record store\<close>

text \<open>
  An ObjectId is kept as the 24 lower-case hexadecimal digits of its string form. A string
  casts to an ObjectId when it is 24 hexadecimal digits; \<open>ObjectId.isValid\<close> is that test.
  (Versions of the driver that also take any string of 12 bytes are not modelled.)
\<close>

type_synonym objectid = string

definition lower :: "char \<Rightarrow> char" where
  "lower c = (let k = (of_char c :: nat) in if 65 \<le> k \<and> k \<le> 90 then char_of (k + 32) else c)"

definition castObjectId :: "string \<Rightarrow> objectid option" where
  "castObjectId s =
     (if length s = 24 \<and> list_all (isRadixDigit 16) s then Some (map lower s) else None)"

definition ObjectId_isValid :: "string \<Rightarrow> bool" where
  "ObjectId_isValid s = (castObjectId s \<noteq> None)"

text \<open>
  \<^verbatim>\<open>const ExerciseSchema = new mongoose.Schema({
    userId: { type: mongoose.Schema.Types.ObjectId, ref: "User" },
    description: String,
    duration: Number,
    date: { type: Date, default: Date.now },
  });
  const UserSchema = new mongoose.Schema({
    username: { type: String, required: true, unique: false },
    log: [ExerciseSchema],
  });\<close>
  \<open>'n\<close> is the type of the Numbers kept in the store.
\<close>

record 'n exercise =
  ex_id :: objectid
  ex_userId :: objectid
  ex_description :: string
  ex_duration :: 'n
  ex_date :: int

record 'n user =
  u_id :: objectid
  u_username :: string
  u_v :: nat
  u_log :: "'n exercise list"

record 'n store =
  users :: "'n user list"
  exercises :: "'n exercise list"

text \<open>
  What the source takes from the object mapper: the cast of a request value that has
  passed the checks of the handler to a Number (\<open>None\<close> when the cast fails), and the
  version counter \<open>__v\<close> of a document after a save that pushed to an array.
\<close>

record 'n mongoose =
  castNumber :: "jsval \<Rightarrow> 'n option"
  savedVersion :: "nat \<Rightarrow> nat"

text \<open>
  What varies from one request to the next: the clock, the identifier generated for a
  created document, and which store operation of the request, if any, is rejected
  (the store being unreachable).
\<close>

record call_env =
  clock :: int
  freshId :: objectid
  storeFails :: "nat option"

datatype dberror = StoreUnavailable | CastError | ValidationError | DuplicateKey

text \<open>
  The String cast of the mapper: \<open>None\<close> when there is no string, the value being
  \<open>undefined\<close> or \<open>null\<close> or the cast failing (an array, an object without a string
  \<open>_id\<close>). The own properties of an object have distinct names.
\<close>

fun castString :: "jsval \<Rightarrow> string option" where
  "castString JUndefined = None"
| "castString JNull = None"
| "castString (JBool b) = Some (if b then ''true'' else ''false'')"
| "castString (JNum n) = Some (decimal_int n)"
| "castString (JStr s) = Some s"
| "castString (JArr xs) = None"
| "castString (JObj kvs) =
     (case map_of kvs ''_id'' of Some (JStr s) \<Rightarrow> (if s = [] then None else Some s) | _ \<Rightarrow> None)"

text \<open>
  \<open>User.create({ username })\<close>, the \<open>k\<close>-th store operation of the request: the
  username is required, the \<open>_id\<close> is unique (error code 11000), the log starts empty.
\<close>

definition User_create ::
  "call_env \<Rightarrow> nat \<Rightarrow> 'n store \<Rightarrow> jsval \<Rightarrow> dberror + ('n user \<times> 'n store)" where
  "User_create c k st newUsername =
     (if storeFails c = Some k then Inl StoreUnavailable
      else case castString newUsername of
        None \<Rightarrow> Inl ValidationError
      | Some name \<Rightarrow>
          if name = [] then Inl ValidationError
          else if freshId c \<in> set (map u_id (users st)) then Inl DuplicateKey
          else let user = \<lparr>u_id = freshId c, u_username = name, u_v = 0, u_log = []\<rparr>
               in Inr (user, st\<lparr>users := users st @ [user]\<rparr>))"

text \<open>\<open>User.find()\<close>.\<close>

definition User_find :: "call_env \<Rightarrow> nat \<Rightarrow> 'n store \<Rightarrow> dberror + 'n user list" where
  "User_find c k st = (if storeFails c = Some k then Inl StoreUnavailable else Inr (users st))"

text \<open>
  \<open>User.findOne({ _id })\<close> and \<open>User.findById({ _id })\<close>: the identifier is cast first,
  and a string that does not cast makes the query fail; \<open>Inr None\<close> is the \<open>null\<close> of
  a query that matches no user.
\<close>

definition User_findOne ::
  "call_env \<Rightarrow> nat \<Rightarrow> 'n store \<Rightarrow> string \<Rightarrow> dberror + 'n user option" where
  "User_findOne c k st userId =
     (if storeFails c = Some k then Inl StoreUnavailable
      else case castObjectId userId of
        None \<Rightarrow> Inl CastError
      | Some oid \<Rightarrow> Inr (find (\<lambda>u. u_id u = oid) (users st)))"

definition User_findById ::
  "call_env \<Rightarrow> nat \<Rightarrow> 'n store \<Rightarrow> string \<Rightarrow> dberror + 'n user option" where
  "User_findById c k st userId = User_findOne c k st userId"

text \<open>
  \<open>Exercise.create({ userId, description, duration, date })\<close>: each field is cast to the
  type of the schema, \<open>date\<close> through \<open>new Date(date)\<close>, which must be a valid Date.
\<close>

definition Exercise_create ::
  "'n mongoose \<Rightarrow> runtime \<Rightarrow> call_env \<Rightarrow> nat \<Rightarrow> 'n store \<Rightarrow> string \<Rightarrow> jsval \<Rightarrow> jsval \<Rightarrow> string
     \<Rightarrow> dberror + ('n exercise \<times> 'n store)" where
  "Exercise_create lib rt c k st userId description duration date =
     (if storeFails c = Some k then Inl StoreUnavailable
      else case (castObjectId userId, castString description, castNumber lib duration,
                 Date_parse rt date) of
        (Some uid, Some descr, Some dur, Fin t) \<Rightarrow>
          if freshId c \<in> set (map ex_id (exercises st)) then Inl DuplicateKey
          else let newExercise = \<lparr>ex_id = freshId c, ex_userId = uid, ex_description = descr,
                                   ex_duration = dur, ex_date = t\<rparr>
               in Inr (newExercise, st\<lparr>exercises := exercises st @ [newExercise]\<rparr>)
      | _ \<Rightarrow> Inl ValidationError)"

text \<open>\<open>user.save()\<close> after \<open>user.log.push(...)\<close>: the stored document of that \<open>_id\<close> is replaced.\<close>

definition User_save ::
  "'n mongoose \<Rightarrow> call_env \<Rightarrow> nat \<Rightarrow> 'n store \<Rightarrow> 'n user \<Rightarrow> dberror + 'n store" where
  "User_save lib c k st user =
     (if storeFails c = Some k then Inl StoreUnavailable
      else let saved = user\<lparr>u_v := savedVersion lib (u_v user)\<rparr>
           in Inr (st\<lparr>users := map (\<lambda>u. if u_id u = u_id user then saved else u) (users st)\<rparr>))"

section \<open>The request handlers\<close>

text \<open>
  A response is a status and a JSON body. No handler sets a status, so \<open>res.json\<close> sends
  the default one.
\<close>

datatype 'n body =
    Text string
  | Message string
  | NewUser string objectid
  | UserList "(string \<times> objectid \<times> nat) list"
  | ExerciseAdded objectid string string 'n string
  | LogReport string string nat "(string \<times> 'n \<times> string) list"

record 'n response =
  status :: nat
  body :: "'n body"

definition res_json :: "'n body \<Rightarrow> 'n response" where
  "res_json b = \<lparr>status = 200, body = b\<rparr>"

text \<open>
  A handler returns the response it sends, \<open>None\<close> when an exception leaves it before
  any is sent, and the store as it is afterwards.
\<close>

type_synonym 'n outcome = "'n response option \<times> 'n store"

definition respond :: "'n body \<Rightarrow> 'n store \<Rightarrow> 'n outcome" where
  "respond b st = (Some (res_json b), st)"

subsection \<open>POST /api/users\<close>

text \<open>
  \<^verbatim>\<open>const newUsername = req.body.username;
  try {
    const { username, _id } = await User.create({ username: newUsername });
    res.json({ username: username, _id: _id });
  } catch (error) {
    if (error.code === 11000 || error.code === 11001) {
      res.json({ message: "Duplicate record." });
    } else {
      res.json({ message: "Unable to create new user." });
    }
  }\<close>
\<close>

definition createUser :: "call_env \<Rightarrow> 'n store \<Rightarrow> jsval \<Rightarrow> 'n outcome" where
  "createUser c st newUsername =
     (case User_create c 0 st newUsername of
        Inr (user, st') \<Rightarrow> respond (NewUser (u_username user) (u_id user)) st'
      | Inl error \<Rightarrow>
          if error = DuplicateKey then respond (Message ''Duplicate record.'') st
          else respond (Message ''Unable to create new user.'') st)"

subsection \<open>GET /api/users\<close>

text \<open>
  \<^verbatim>\<open>try {
    const allUsers = await User.find();
    const userArray = allUsers.map((user) => {
      return { username: user.username, _id: user._id, __v: user.__v };
    });
    res.json(userArray);
  } catch (error) {
    res.json("Unable to fetch all users.");
  }\<close>
\<close>

definition listUsers :: "call_env \<Rightarrow> 'n store \<Rightarrow> 'n outcome" where
  "listUsers c st =
     (case User_find c 0 st of
        Inr allUsers \<Rightarrow>
          respond (UserList (map (\<lambda>user. (u_username user, u_id user, u_v user)) allUsers)) st
      | Inl error \<Rightarrow> respond (Text ''Unable to fetch all users.'') st)"

subsection \<open>POST /api/users/:_id/exercises\<close>

text \<open>
  \<^verbatim>\<open>let { description, duration, date } = req.body;
  let { _id } = req.params;
  if (!mongoose.Types.ObjectId.isValid(_id)) {
    return res.json("Invalid user ID.");
  }
  date = checkDate(date);
  if (!duration || !description) return res.json("Missing fields.");
  if (!isValidDuration(duration))
    return res.json(
      `The duration "${duration}" is not valid; must be in minutes`
    );
  try {
    const user = await User.findById({ _id });
    if (!user) {
      return res.json("User not found.");
    }
    const newExercise = await Exercise.create({
      userId: _id, description: description, duration: duration, date: date,
    });
    user.log.push(newExercise);
    await user.save();
    const response = {
      _id: user._id,
      username: user.username,
      description: newExercise.description,
      duration: newExercise.duration,
      date: new Date(newExercise.date).toDateString(),
    };
    res.json(response);
  } catch (error) {
    return res.json("Unable to add exercise.");
  }\<close>
  The calls of \<open>checkDate\<close> and \<open>isValidDuration\<close> are outside the \<open>try\<close>.
\<close>

definition addExercise ::
  "'n mongoose \<Rightarrow> runtime \<Rightarrow> call_env \<Rightarrow> 'n store \<Rightarrow> string \<Rightarrow> jsval \<Rightarrow> jsval \<Rightarrow> jsval
     \<Rightarrow> 'n outcome" where
  "addExercise lib rt c st param_id description duration date0 =
     (if \<not> ObjectId_isValid param_id then respond (Text ''Invalid user ID.'') st
      else case checkDate rt (clock c) date0 of
        Inl e \<Rightarrow> (None, st)
      | Inr date \<Rightarrow>
          if \<not> truthy duration \<or> \<not> truthy description then respond (Text ''Missing fields.'') st
          else case (isValidDuration duration, ToString duration) of
            (Inr False, Inr shown) \<Rightarrow>
              respond (Text (''The duration '' @ [CHR 0x22] @ shown @ [CHR 0x22]
                             @ '' is not valid; must be in minutes'')) st
          | (Inr True, _) \<Rightarrow>
              (case User_findById c 0 st param_id of
                 Inl error \<Rightarrow> respond (Text ''Unable to add exercise.'') st
               | Inr None \<Rightarrow> respond (Text ''User not found.'') st
               | Inr (Some user) \<Rightarrow>
                   (case Exercise_create lib rt c 1 st param_id description duration date of
                      Inl error \<Rightarrow> respond (Text ''Unable to add exercise.'') st
                    | Inr (newExercise, st1) \<Rightarrow>
                        (case User_save lib c 2 st1
                                (user\<lparr>u_log := u_log user @ [newExercise]\<rparr>) of
                           Inl error \<Rightarrow> respond (Text ''Unable to add exercise.'') st1
                         | Inr st2 \<Rightarrow>
                             respond (ExerciseAdded (u_id user) (u_username user)
                                        (ex_description newExercise) (ex_duration newExercise)
                                        (toDateString rt (Fin (ex_date newExercise)))) st2)))
          | _ \<Rightarrow> (None, st))"

subsection \<open>GET /api/users/:_id/logs\<close>

text \<open>
  The filtering and limiting of the log:
  \<^verbatim>\<open>let logs = user.log;
  if (from && to) {
    const fromDate = new Date(from);
    const toDate = new Date(to);
    logs = logs.filter((log) => {
      const logDate = new Date(log.date);
      return logDate >= fromDate && logDate <= toDate;
    });
  }
  if (limit) {
    logs = logs.slice(0, parseInt(limit, 10));
  }\<close>
\<close>

definition filterLog ::
  "runtime \<Rightarrow> 'n exercise list \<Rightarrow> jsval \<Rightarrow> jsval \<Rightarrow> jsval \<Rightarrow> exn + 'n exercise list" where
  "filterLog rt logs from to limit =
     (case (if truthy from \<and> truthy to
            then (case newDate rt from of
                    Inl e \<Rightarrow> Inl e
                  | Inr fromDate \<Rightarrow>
                      (case newDate rt to of
                         Inl e \<Rightarrow> Inl e
                       | Inr toDate \<Rightarrow>
                           Inr (filter (\<lambda>log. date_ge (Fin (ex_date log)) fromDate
                                           \<and> date_le (Fin (ex_date log)) toDate) logs)))
            else Inr logs) of
        Inl e \<Rightarrow> Inl e
      | Inr logs1 \<Rightarrow>
          if truthy limit
          then (case parseInt limit (Some 10) of
                  Inl e \<Rightarrow> Inl e
                | Inr n \<Rightarrow> Inr (slice0 logs1 n))
          else Inr logs1)"

text \<open>
  \<^verbatim>\<open>const userId = req.params._id;
  const { from, to, limit } = req.query;
  try {
    const user = await User.findOne({ _id: userId });
    if (!user) {
      return res.json("User not found.");
    }
    ... the filtering and limiting above ...
    const formattedLogs = logs.map((log) => ({
      description: log.description,
      duration: log.duration,
      date: log.date.toDateString(),
    }));
    const response = {
      _id: userId,
      username: user.username,
      count: formattedLogs.length,
      log: formattedLogs,
    };
    return res.json(response);
  } catch (error) {
    return res.json("Could not get user las log data.");
  }\<close>
\<close>

definition getLogs ::
  "runtime \<Rightarrow> call_env \<Rightarrow> 'n store \<Rightarrow> string \<Rightarrow> jsval \<Rightarrow> jsval \<Rightarrow> jsval \<Rightarrow> 'n outcome" where
  "getLogs rt c st userId from to limit =
     (case User_findOne c 0 st userId of
        Inl error \<Rightarrow> respond (Text ''Could not get user las log data.'') st
      | Inr None \<Rightarrow> respond (Text ''User not found.'') st
      | Inr (Some user) \<Rightarrow>
          (case filterLog rt (u_log user) from to limit of
             Inl error \<Rightarrow> respond (Text ''Could not get user las log data.'') st
           | Inr logs \<Rightarrow>
               let formattedLogs =
                     map (\<lambda>log. (ex_description log, ex_duration log,
                                  toDateString rt (Fin (ex_date log)))) logs
               in respond (LogReport userId (u_username user) (length formattedLogs)
                             formattedLogs) st))"

subsection \<open>Sequences of requests\<close>

datatype request =
    CreateUser jsval
  | ListUsers
  | AddExercise string jsval jsval jsval
  | GetLogs string jsval jsval jsval

definition handle ::
  "'n mongoose \<Rightarrow> runtime \<Rightarrow> 'n store \<Rightarrow> call_env \<times> request \<Rightarrow> 'n outcome" where
  "handle lib rt st cr =
     (case cr of
        (c, CreateUser newUsername) \<Rightarrow> createUser c st newUsername
      | (c, ListUsers) \<Rightarrow> listUsers c st
      | (c, AddExercise param_id description duration date) \<Rightarrow>
          addExercise lib rt c st param_id description duration date
      | (c, GetLogs userId from to limit) \<Rightarrow> getLogs rt c st userId from to limit)"

fun run :: "'n mongoose \<Rightarrow> runtime \<Rightarrow> 'n store \<Rightarrow> (call_env \<times> request) list \<Rightarrow> 'n store" where
  "run lib rt st [] = st"
| "run lib rt st (cr # crs) = run lib rt (snd (handle lib rt st cr)) crs"

text \<open>Every exercise in the log of a user carries the identifier of that user.\<close>

definition log_owned :: "'n store \<Rightarrow> bool" where
  "log_owned st =
     list_all (\<lambda>u. list_all (\<lambda>e. ex_userId e = u_id u) (u_log u)) (users st)"

definition empty_store :: "'n store" where
  "empty_store = \<lparr>users = [], exercises = []\<rparr>"

section \<open>Notions used to state the properties\<close>

text \<open>Midnight UTC at the start of a calendar day, as a time value.\<close>

definition utc_midnight :: "int \<Rightarrow> int \<Rightarrow> int \<Rightarrow> int" where
  "utc_midnight y m d = MakeDay y (m - 1) d * msPerDay"

text \<open>
  The offset of the runtime at instant \<open>t\<close> is at most a day and is still the same at the
  instant \<open>t\<close> shifted by it, as with any zone whose clocks are not changed in between.
\<close>

definition offset_settled :: "runtime \<Rightarrow> int \<Rightarrow> bool" where
  "offset_settled rt t =
     (\<bar>tzOffset rt t\<bar> \<le> 1440 \<and> tzOffset rt (t + tzOffset rt t * 60000) = tzOffset rt t)"

section \<open>Runtimes and requests for the examples\<close>

fun index_of :: "'a \<Rightarrow> 'a list \<Rightarrow> nat option" where
  "index_of x [] = None"
| "index_of x (y # ys) = (if x = y then Some 0 else map_option Suc (index_of x ys))"

text \<open>
  An engine reads a string such as \<open>Tue Jan 31 2023\<close> as midnight of that day in local
  time; \<open>off\<close> is the offset of the zone in minutes.
\<close>

definition parse_date_string :: "int \<Rightarrow> string \<Rightarrow> number" where
  "parse_date_string off s =
     (case split CHR '' '' s of
        [w, mon, dd, yyyy] \<Rightarrow>
          (case (index_of mon monthNames, parseIntStr dd (Some 10), parseIntStr yyyy (Some 10)) of
             (Some mi, Fin d, Fin y) \<Rightarrow> TimeClip (MakeDay y (int mi) d * msPerDay + off * 60000)
           | _ \<Rightarrow> NaN)
      | _ \<Rightarrow> NaN)"

text \<open>A server in a zone that keeps the same offset all year.\<close>

definition fixed_zone :: "int \<Rightarrow> runtime" where
  "fixed_zone off = \<lparr>tzOffset = (\<lambda>t. off), dateParseOther = parse_date_string off\<rparr>"

text \<open>
  A server in a zone two hours east of Greenwich that moved its clocks forward by one
  hour at local midnight starting 27 March 2022, that is at 2022-03-26T22:00:00Z.
\<close>

definition spring_forward_zone :: runtime where
  "spring_forward_zone =
     \<lparr>tzOffset = (\<lambda>t. if 1648332000000 \<le> t then - 180 else - 120),
      dateParseOther = (\<lambda>s. NaN)\<rparr>"

text \<open>A mapper over integer Numbers, given as such or as an integer numeral.\<close>

definition int_numbers :: "int mongoose" where
  "int_numbers =
     \<lparr>castNumber = (\<lambda>v. case v of JNum n \<Rightarrow> Some n | JStr s \<Rightarrow> integer_numeral s | _ \<Rightarrow> None),
      savedVersion = Suc\<rparr>"

definition alice :: objectid where
  "alice = ''64b7f0c2a1d3e4f5a6b7c8d9''"

text \<open>The store once Alice has registered.\<close>

definition alice_store :: "int store" where
  "alice_store =
     snd (createUser \<lparr>clock = 1675000000000, freshId = alice, storeFails = None\<rparr>
            empty_store (JStr ''Alice''))"

text \<open>The store once Alice has logged a run for 31 January 2023, five hours west of Greenwich.\<close>

definition alice_ran :: "int store" where
  "alice_ran =
     snd (addExercise int_numbers (fixed_zone 300)
            \<lparr>clock = 1675200000000, freshId = ''64b7f0c2a1d3e4f5a6b7c8da'', storeFails = None\<rparr>
            alice_store alice (JStr ''run'') (JNum 30) (JStr ''2023-01-31''))"

definition later :: call_env where
  "later = \<lparr>clock = 1675300000000, freshId = ''64b7f0c2a1d3e4f5a6b7c8db'', storeFails = None\<rparr>"

text \<open>A log entry with a given date.\<close>

definition entry :: "int \<Rightarrow> int exercise" where
  "entry t = \<lparr>ex_id = ''64b7f0c2a1d3e4f5a6b7c8da'', ex_userId = alice, ex_description = ''run'',
              ex_duration = 30, ex_date = t\<rparr>"

section \<open>Numerals and \<open>parseInt\<close>\<close>

lemma digitValue_digit_char: "n < 10 \<Longrightarrow> digitValue (digit_char n) = Some n"
  by (simp add: digitValue_def digit_char_def Let_def)

lemma isRadixDigit_digit_char: "n < 10 \<Longrightarrow> isRadixDigit 10 (digit_char n)"
  by (simp add: isRadixDigit_def digitValue_digit_char)

lemma radixValue_snoc: "radixValue R (xs @ [c]) = radixValue R xs * R + the (digitValue c)"
  by (simp add: radixValue_def)

lemma decimal_digits: "list_all (isRadixDigit 10) (decimal n)"
proof (induction n rule: decimal.induct)
  case (1 n)
  show ?case
  proof (cases "n < 10")
    case True
    then show ?thesis by (subst decimal.simps) (simp add: isRadixDigit_digit_char)
  next
    case False
    with 1 show ?thesis by (subst decimal.simps) (simp add: isRadixDigit_digit_char)
  qed
qed

lemma decimal_not_Nil: "decimal n \<noteq> []"
  by (subst decimal.simps) simp

lemma radixValue_decimal: "radixValue 10 (decimal n) = n"
proof (induction n rule: decimal.induct)
  case (1 n)
  show ?case
  proof (cases "n < 10")
    case True
    then show ?thesis
      by (subst decimal.simps) (simp add: radixValue_def digitValue_digit_char)
  next
    case False
    with 1 show ?thesis
      by (subst decimal.simps) (simp add: radixValue_snoc digitValue_digit_char)
  qed
qed

lemma digit_not_space: "isRadixDigit 10 c \<Longrightarrow> \<not> isWhiteSpace c"
  by (auto simp: isRadixDigit_def digitValue_def isWhiteSpace_def Let_def split: if_splits)

lemma digit_not_sign: "isRadixDigit 10 c \<Longrightarrow> c \<noteq> CHR ''-'' \<and> c \<noteq> CHR ''+''"
  by (auto simp: isRadixDigit_def digitValue_def Let_def split: if_splits)

lemma minus_not_space: "\<not> isWhiteSpace CHR ''-''"
  by (simp add: isWhiteSpace_def)

lemma takeWhile_all: "list_all P xs \<Longrightarrow> takeWhile P xs = xs"
  by (induction xs) auto

lemma parseIntStr_digits:
  assumes "ds \<noteq> []" "list_all (isRadixDigit 10) ds"
  shows "parseIntStr ds (Some 10) = Fin (int (radixValue 10 ds))"
proof -
  have c: "isRadixDigit 10 (hd ds)" using assms by (cases ds) auto
  have dw: "dropWhile isWhiteSpace ds = ds"
    using assms(1) digit_not_space[OF c] by (cases ds) auto
  have tw: "takeWhile (isRadixDigit 10) ds = ds" using assms(2) by (rule takeWhile_all)
  show ?thesis
    unfolding parseIntStr_def Let_def dw
    using assms(1) digit_not_sign[OF c] by (simp add: tw)
qed

lemma parseIntStr_minus_digits:
  assumes "ds \<noteq> []" "list_all (isRadixDigit 10) ds"
  shows "parseIntStr (CHR ''-'' # ds) (Some 10) = Fin (- int (radixValue 10 ds))"
proof -
  have dw: "dropWhile isWhiteSpace (CHR ''-'' # ds) = CHR ''-'' # ds"
    by (simp add: minus_not_space)
  have tw: "takeWhile (isRadixDigit 10) ds = ds" using assms(2) by (rule takeWhile_all)
  show ?thesis
    unfolding parseIntStr_def Let_def dw
    using assms(1) by (simp add: tw)
qed

lemma parseIntStr_integer_numeral:
  assumes "integer_numeral s = Some i"
  shows "parseIntStr s (Some 10) = Fin i"
proof (cases "s \<noteq> [] \<and> hd s = CHR ''-''")
  case True
  then obtain r where s: "s = CHR ''-'' # r" by (cases s) auto
  with assms have "r \<noteq> []" "list_all (isRadixDigit 10) r" "i = - int (radixValue 10 r)"
    by (auto simp: integer_numeral_def Let_def split: if_splits)
  then show ?thesis using s by (simp add: parseIntStr_minus_digits)
next
  case False
  with assms have "s \<noteq> []" "list_all (isRadixDigit 10) s" "i = int (radixValue 10 s)"
    by (auto simp: integer_numeral_def Let_def split: if_splits)
  then show ?thesis by (simp add: parseIntStr_digits)
qed

lemma integer_numeral_decimal_int: "integer_numeral (decimal_int i) = Some i"
proof (cases "i < 0")
  case True
  then show ?thesis
    by (simp add: integer_numeral_def decimal_int_def Let_def decimal_not_Nil decimal_digits radixValue_decimal)
next
  case False
  obtain c r where d: "decimal (nat i) = c # r" using decimal_not_Nil[of "nat i"] by (cases "decimal (nat i)") auto
  have "isRadixDigit 10 c" using decimal_digits[of "nat i"] d by simp
  then have "c \<noteq> CHR ''-''" using digit_not_sign by blast
  with False d show ?thesis
    using decimal_digits[of "nat i"] radixValue_decimal[of "nat i"]
    by (simp add: integer_numeral_def decimal_int_def Let_def)
qed

lemma digit_not_x: "isRadixDigit 10 c \<Longrightarrow> c \<noteq> CHR ''x'' \<and> c \<noteq> CHR ''X''"
  by (auto simp: isRadixDigit_def digitValue_def Let_def split: if_splits)

lemma digits_no_hex_prefix:
  assumes "list_all (isRadixDigit 10) ds"
  shows "take 2 ds \<noteq> ''0x'' \<and> take 2 ds \<noteq> ''0X''"
proof (cases ds)
  case Nil then show ?thesis by simp
next
  case (Cons a r)
  show ?thesis
  proof (cases r)
    case Nil with Cons show ?thesis by simp
  next
    case (Cons b r')
    with \<open>ds = a # r\<close> assms have "isRadixDigit 10 b" by simp
    then show ?thesis using digit_not_x[of b] Cons \<open>ds = a # r\<close> by simp
  qed
qed

lemma parseIntStr_digits_noradix:
  assumes "ds \<noteq> []" "list_all (isRadixDigit 10) ds"
  shows "parseIntStr ds None = Fin (int (radixValue 10 ds))"
proof -
  have c: "isRadixDigit 10 (hd ds)" using assms by (cases ds) auto
  have dw: "dropWhile isWhiteSpace ds = ds"
    using assms(1) digit_not_space[OF c] by (cases ds) auto
  have tw: "takeWhile (isRadixDigit 10) ds = ds" using assms(2) by (rule takeWhile_all)
  show ?thesis
    unfolding parseIntStr_def Let_def dw
    using assms(1) digit_not_sign[OF c] digits_no_hex_prefix[OF assms(2)] by (simp add: tw)
qed

lemma digit_char_digitValue: "isRadixDigit 10 c \<Longrightarrow> digit_char (the (digitValue c)) = c"
  by (auto simp: isRadixDigit_def digitValue_def digit_char_def Let_def split: if_splits)

lemma digitValue_less: "isRadixDigit 10 c \<Longrightarrow> the (digitValue c) < 10"
  by (auto simp: isRadixDigit_def split: option.splits)

lemma digit_char_0: "digit_char 0 = CHR ''0''"
  by code_simp

lemma pad_zero_snoc: "pad_zero (Suc w) (xs @ [c]) = pad_zero w xs @ [c]"
  by (simp add: pad_zero_def)

lemma pad_decimal_radixValue:
  "list_all (isRadixDigit 10) s \<Longrightarrow> s \<noteq> [] \<Longrightarrow> pad_zero (length s) (decimal (radixValue 10 s)) = s"
proof (induction s rule: rev_induct)
  case Nil
  then show ?case by simp
next
  case (snoc c xs)
  then have c: "isRadixDigit 10 c" and xs: "list_all (isRadixDigit 10) xs" by simp_all
  let ?v = "the (digitValue c)"
  let ?n = "radixValue 10 xs"
  have v: "?v < 10" using c by (rule digitValue_less)
  have rv: "radixValue 10 (xs @ [c]) = ?n * 10 + ?v" by (rule radixValue_snoc)
  show ?case
  proof (cases "xs = []")
    case True
    then show ?thesis using v c
      by (simp add: radixValue_def decimal.simps[of ?v] pad_zero_def digit_char_digitValue)
  next
    case False
    with snoc.IH xs have IH: "pad_zero (length xs) (decimal ?n) = xs" by simp
    show ?thesis
    proof (cases "?n = 0")
      case True
      have "decimal 0 = ''0''" by (simp add: decimal.simps[of 0] digit_char_0)
      with IH True have "xs = replicate (length xs - 1) CHR ''0'' @ ''0''" by (simp add: pad_zero_def)
      also have "\<dots> = replicate (length xs) CHR ''0''"
        using False by (metis One_nat_def Suc_pred length_greater_0_conv replicate_append_same replicate_Suc append_Cons append_Nil)
      finally have z: "xs = replicate (length xs) CHR ''0''" .
      have "decimal (?n * 10 + ?v) = [c]"
        using True v c by (simp add: decimal.simps[of ?v] digit_char_digitValue)
      then have "pad_zero (length (xs @ [c])) (decimal (radixValue 10 (xs @ [c]))) = replicate (length xs) CHR ''0'' @ [c]"
        unfolding rv by (simp add: pad_zero_def)
      then show ?thesis using z by simp
    next
      case nz: False
      then have "\<not> ?n * 10 + ?v < 10" by simp
      moreover have "(?n * 10 + ?v) div 10 = ?n" "(?n * 10 + ?v) mod 10 = ?v" using v by simp_all
      ultimately have "decimal (?n * 10 + ?v) = decimal ?n @ [c]"
        using c by (simp add: decimal.simps[of "?n * 10 + ?v"] digit_char_digitValue)
      then show ?thesis unfolding rv using IH by (simp add: pad_zero_snoc)
    qed
  qed
qed

lemma radixValue_bound:
  "list_all (isRadixDigit 10) s \<Longrightarrow> radixValue 10 s < 10 ^ length s"
proof (induction s rule: rev_induct)
  case Nil
  then show ?case by (simp add: radixValue_def)
next
  case (snoc c xs)
  then have "radixValue 10 xs < 10 ^ length xs" "the (digitValue c) < 10"
    by (simp_all add: digitValue_less)
  then show ?case by (simp add: radixValue_snoc)
qed


section \<open>The duration validator\<close>

text \<open>
  \<open>isValidDuration\<close> returns true exactly when \<open>parseInt(value, 10)\<close> is a number
  from 0 to 600. So it is true for every integer from 0 to 600 and false for every other
  integer, given as a Number (of a magnitude that is printed in full) or as an integer
  numeral, true for \<open>"600"\<close> and false for \<open>"601"\<close> and \<open>"abc"\<close>; and it is false
  for every string that has no digit after its leading white space and sign.
\<close>

lemma isValidDuration_no_digits:
  assumes "takeWhile (isRadixDigit 10)
             (let S = dropWhile isWhiteSpace s
              in if S \<noteq> [] \<and> (hd S = CHR ''+'' \<or> hd S = CHR ''-'') then tl S else S) = []"
  shows "isValidDuration (JStr s) = Inr False"
  using assms by (simp add: isValidDuration_def parseInt_def parseIntStr_def Let_def)

theorem isValidDuration_parse_range:
  "(isValidDuration v = Inr True \<longleftrightarrow>
      (\<exists>n. parseInt v (Some 10) = Inr (Fin n) \<and> 0 \<le> n \<and> n \<le> 600))
   \<and> (\<bar>i\<bar> < 10 ^ 21 \<longrightarrow> isValidDuration (JNum i) = Inr (0 \<le> i \<and> i \<le> 600))
   \<and> (integer_numeral s = Some j \<longrightarrow> isValidDuration (JStr s) = Inr (0 \<le> j \<and> j \<le> 600))
   \<and> isValidDuration (JStr ''600'') = Inr True
   \<and> isValidDuration (JStr ''601'') = Inr False
   \<and> isValidDuration (JStr ''abc'') = Inr False"
proof (intro conjI impI)
  show "isValidDuration v = Inr True \<longleftrightarrow>
      (\<exists>n. parseInt v (Some 10) = Inr (Fin n) \<and> 0 \<le> n \<and> n \<le> 600)"
    by (auto simp: isValidDuration_def split: sum.splits number.splits)
  show "isValidDuration (JNum i) = Inr (0 \<le> i \<and> i \<le> 600)" if "\<bar>i\<bar> < 10 ^ 21"
    using parseIntStr_integer_numeral[OF integer_numeral_decimal_int, of i]
    by (simp add: isValidDuration_def parseInt_def)
  show "isValidDuration (JStr s) = Inr (0 \<le> j \<and> j \<le> 600)" if "integer_numeral s = Some j"
    using parseIntStr_integer_numeral[OF that] by (simp add: isValidDuration_def parseInt_def)
  show "isValidDuration (JStr ''600'') = Inr True" by code_simp
  show "isValidDuration (JStr ''601'') = Inr False" by code_simp
  show "isValidDuration (JStr ''abc'') = Inr False" by code_simp
qed

theorem isValidDuration_parse_range_witness:
  "integer_numeral ''-7'' = Some (- 7) \<and> isValidDuration (JStr ''-7'') = Inr False
   \<and> integer_numeral ''045'' = Some 45 \<and> isValidDuration (JStr ''045'') = Inr True
   \<and> isValidDuration (JNum 0) = Inr True"
proof -
  have a: "integer_numeral ''-7'' = Some (- 7)" by code_simp
  have b: "integer_numeral ''045'' = Some 45" by code_simp
  show ?thesis
    using a b isValidDuration_parse_range[of JNull 0 "''-7''" "- 7"]
      isValidDuration_parse_range[of JNull 0 "''045''" 45]
    by simp
qed

text \<open>
  Claim C1. The validator, which by its comment checks that the duration is a number
  within the range 0 to 600, is to return false for every value that is below 0, above
  600 or not a number. It reads only the leading digits of the value: a string that is
  not a numeral is accepted when it starts with one, and so are a negative fraction
  above -1 and a fraction just above 600.
\<close>

theorem isValidDuration_accepts_non_integers:
  "integer_numeral ''12abc'' = None \<and> isValidDuration (JStr ''12abc'') = Inr True
   \<and> isValidDuration (JStr ''-0.5'') = Inr True
   \<and> isValidDuration (JStr ''600.9'') = Inr True"
  by code_simp

section \<open>The calendar\<close>

lemma div_lower: "0 < k \<Longrightarrow> a - (k - 1) \<le> k * (a div k)" for a k :: int
  using mult_div_mod_eq[of k a] pos_mod_bound[of k a] by linarith

lemma div_upper: "0 < k \<Longrightarrow> k * (a div k) \<le> a" for a k :: int
  using mult_div_mod_eq[of k a] pos_mod_sign[of k a] by linarith

lemma div_step:
  fixes a :: int
  assumes "0 < k"
  shows "(a + 1) div k = a div k + (if (a + 1) mod k = 0 then 1 else 0)"
proof -
  have e: "a + 1 = k * (a div k) + (a mod k + 1)" by simp
  have b: "0 \<le> a mod k" "a mod k < k" using assms by simp_all
  show ?thesis
  proof (cases "a mod k + 1 = k")
    case True
    then have "a + 1 = k * (a div k + 1)" using e by (simp add: algebra_simps)
    then show ?thesis using assms by (metis mod_mult_self1_is_0 nonzero_mult_div_cancel_left less_irrefl)
  next
    case False
    then have lt: "a mod k + 1 < k" using b by linarith
    have "(a + 1) div k = a div k" 
      using e b lt by (metis add_nonneg_nonneg div_pos_pos_trivial zero_le_one div_mult_self2 add.commute assms less_irrefl add_cancel_right_right)
    moreover have "(a + 1) mod k = a mod k + 1"
      using e b lt by (metis mod_mult_self4 mod_pos_pos_trivial add_nonneg_nonneg zero_le_one)
    ultimately show ?thesis using b by simp
  qed
qed

lemma mod_shift: "(y - k * c) mod k = y mod k" for y :: int
  by (metis mod_mult_self2 uminus_add_conv_diff add.commute mult_minus_right)


lemma DayFromYear_step: "DayFromYear (y + 1) = DayFromYear y + DaysInYear y"
proof -
  have m4: "(y - 1968) mod 4 = y mod 4" using mod_shift[of y 4 492] by simp
  have m100: "(y - 1900) mod 100 = y mod 100" using mod_shift[of y 100 19] by simp
  have m400: "(y - 1600) mod 400 = y mod 400" using mod_shift[of y 400 4] by simp
  have a: "(y - 1968) div 4 = (y - 1969) div 4 + (if y mod 4 = 0 then 1 else 0)"
    using div_step[of 4 "y - 1969"] m4 by simp
  have b: "(y - 1900) div 100 = (y - 1901) div 100 + (if y mod 100 = 0 then 1 else 0)"
    using div_step[of 100 "y - 1901"] m100 by simp
  have c: "(y - 1600) div 400 = (y - 1601) div 400 + (if y mod 400 = 0 then 1 else 0)"
    using div_step[of 400 "y - 1601"] m400 by simp
  have d1: "y mod 100 = 0" if "y mod 400 = 0"
  proof -
    have "(100::int) dvd 400" by simp
    moreover have "400 dvd y" using that by (simp add: dvd_eq_mod_eq_0)
    ultimately have "100 dvd y" by (rule dvd_trans)
    then show ?thesis by (simp add: dvd_eq_mod_eq_0)
  qed
  have d2: "y mod 4 = 0" if "y mod 100 = 0"
  proof -
    have "(4::int) dvd 100" by simp
    moreover have "100 dvd y" using that by (simp add: dvd_eq_mod_eq_0)
    ultimately have "4 dvd y" by (rule dvd_trans)
    then show ?thesis by (simp add: dvd_eq_mod_eq_0)
  qed
  have e: "DayFromYear (y + 1) =
      365 * (y - 1969) + (y - 1968) div 4 - (y - 1900) div 100 + (y - 1600) div 400"
    by (simp add: DayFromYear_def)
  show ?thesis
  proof (cases "y mod 4 = 0")
    case False
    then have n100: "y mod 100 \<noteq> 0" using d2 by auto
    then have "y mod 400 \<noteq> 0" using d1 by auto
    with False n100 show ?thesis unfolding e a b c by (simp add: DayFromYear_def DaysInYear_def)
  next
    case y4: True
    show ?thesis
    proof (cases "y mod 100 = 0")
      case False
      then have "y mod 400 \<noteq> 0" using d1 by auto
      with False y4 show ?thesis unfolding e a b c by (simp add: DayFromYear_def DaysInYear_def)
    next
      case True
      with y4 show ?thesis unfolding e a b c by (simp add: DayFromYear_def DaysInYear_def)
    qed
  qed
qed

lemma lin_lower:
  fixes q1 q2 q3 y :: int
  assumes "y - 1969 - 3 \<le> 4 * q1" "100 * q2 \<le> y - 1901" "y - 1601 - 399 \<le> 400 * q3"
  shows "146097 * (y - 1970) - 506 \<le> 400 * (365 * (y - 1970) + q1 - q2 + q3)"
proof -
  have a: "100 * y - 197200 \<le> 400 * q1" using assms(1) by simp
  have b: "400 * q2 \<le> 4 * y - 7604" using assms(2) by simp
  have c: "y - 2000 \<le> 400 * q3" using assms(3) by simp
  show ?thesis using a b c by (simp add: algebra_simps)
qed

lemma lin_upper:
  fixes q1 q2 q3 y :: int
  assumes "4 * q1 \<le> y - 1969" "y - 1901 - 99 \<le> 100 * q2" "400 * q3 \<le> y - 1601"
  shows "400 * (365 * (y - 1970) + q1 - q2 + q3) \<le> 146097 * (y - 1970) + 589"
proof -
  have a: "400 * q1 \<le> 100 * y - 196900" using assms(1) by simp
  have b: "4 * y - 8000 \<le> 400 * q2" using assms(2) by simp
  show ?thesis using a b assms(3) by (simp add: algebra_simps)
qed

lemma lin_lo:
  fixes e y d D :: int
  assumes "146097 * (y - 1970) - 506 \<le> 400 * D" "D \<le> d" "400 * d < 146097 * (e - 1970) + 146097"
  shows "y - 1 \<le> e"
proof (rule ccontr)
  assume "\<not> y - 1 \<le> e"
  then have "e + 2 \<le> y" by simp
  then have "146097 * (e + 2) \<le> 146097 * y" by simp
  moreover have "400 * D \<le> 400 * d" using assms(2) by simp
  ultimately show False using assms(1,3) by (simp add: algebra_simps)
qed

lemma lin_hi:
  fixes e y d D :: int
  assumes "400 * D \<le> 146097 * (y + 1 - 1970) + 589" "d < D" "146097 * (e - 1970) \<le> 400 * d"
  shows "e \<le> y + 1"
proof (rule ccontr)
  assume "\<not> e \<le> y + 1"
  then have "y + 2 \<le> e" by simp
  then have "146097 * (y + 2) \<le> 146097 * e" by simp
  moreover have "400 * d < 400 * D" using assms(2) by simp
  ultimately show False using assms(1,3) by (simp add: algebra_simps)
qed


lemma DayFromYear_lower: "146097 * (y - 1970) - 506 \<le> 400 * DayFromYear y"
  unfolding DayFromYear_def
  using div_lower[of 4 "y - 1969"] div_upper[of 100 "y - 1901"] div_lower[of 400 "y - 1601"]
  by (intro lin_lower) simp_all

lemma DayFromYear_upper: "400 * DayFromYear y \<le> 146097 * (y - 1970) + 589"
  unfolding DayFromYear_def
  using div_upper[of 4 "y - 1969"] div_lower[of 100 "y - 1901"] div_upper[of 400 "y - 1601"]
  by (intro lin_upper) simp_all

lemma DaysInYear_pos: "0 < DaysInYear y"
  by (simp add: DaysInYear_def)

lemma YearFromDay_unique:
  assumes "DayFromYear y \<le> d" "d < DayFromYear (y + 1)"
  shows "YearFromDay d = y"
proof -
  define e where "e = 1970 + (400 * d) div 146097"
  have q: "e - 1970 = (400 * d) div 146097" by (simp add: e_def)
  have q1: "146097 * (e - 1970) \<le> 400 * d"
    unfolding q by (rule div_upper) simp
  have q2: "400 * d < 146097 * (e - 1970) + 146097"
    unfolding q using div_lower[of 146097 "400 * d"] by simp
  have lo: "y - 1 \<le> e"
    using DayFromYear_lower[of y] assms(1) q2 by (rule lin_lo)
  have hi: "e \<le> y + 1"
    using DayFromYear_upper[of "y + 1"] assms(2) q1 by (rule lin_hi)
  have s1: "DayFromYear (y - 1) < DayFromYear y"
    using DayFromYear_step[of "y - 1"] DaysInYear_pos[of "y - 1"] by simp
  have s2: "DayFromYear (y + 1) < DayFromYear (y + 2)"
    using DayFromYear_step[of "y + 1"] DaysInYear_pos[of "y + 1"] by (simp add: add.assoc)
  consider "e = y - 1" | "e = y" | "e = y + 1" using lo hi by linarith
  then have "(if d < DayFromYear e then e - 1
         else if DayFromYear (e + 1) \<le> d then e + 1 else e) = y"
  proof cases
    case 1
    then show ?thesis using assms s1 by simp
  next
    case 2
    then show ?thesis using assms by simp
  next
    case 3
    then show ?thesis using assms s2 by (simp add: add.assoc)
  qed
  then show ?thesis unfolding YearFromDay_def Let_def e_def .
qed


text \<open>The year found is the largest one that starts on or before the day.\<close>

lemma YearFromDay_bracket:
  "DayFromYear (YearFromDay d) \<le> d \<and> d < DayFromYear (YearFromDay d + 1)"
proof -
  define e where "e = 1970 + (400 * d) div 146097"
  have q: "e - 1970 = (400 * d) div 146097" by (simp add: e_def)
  have q1: "146097 * (e - 1970) \<le> 400 * d"
    unfolding q by (rule div_upper) simp
  have q2: "400 * d < 146097 * (e - 1970) + 146097"
    unfolding q using div_lower[of 146097 "400 * d"] by simp
  have "400 * DayFromYear (e - 1) \<le> 146097 * (e - 1970) - 145508"
    using DayFromYear_upper[of "e - 1"] by (simp add: algebra_simps)
  then have "400 * DayFromYear (e - 1) \<le> 400 * d" using q1 by simp
  then have lo: "DayFromYear (e - 1) \<le> d" by simp
  have "146097 * (e - 1970) + 291688 \<le> 400 * DayFromYear (e + 2)"
    using DayFromYear_lower[of "e + 2"] by (simp add: algebra_simps)
  then have "400 * d < 400 * DayFromYear (e + 2)" using q2 by simp
  then have hi: "d < DayFromYear (e + 2)" by simp
  have s: "DayFromYear (e + 2) = DayFromYear (e + 1 + 1)" by (simp add: add.assoc)
  have "DayFromYear (if d < DayFromYear e then e - 1
                     else if DayFromYear (e + 1) \<le> d then e + 1 else e) \<le> d
        \<and> d < DayFromYear ((if d < DayFromYear e then e - 1
                     else if DayFromYear (e + 1) \<le> d then e + 1 else e) + 1)"
    using lo hi s by auto
  then show ?thesis unfolding YearFromDay_def Let_def e_def .
qed

lemma monthStart_simps:
  "monthStart 0 L = 0" "monthStart 1 L = 31"
  "monthStart 2 L = 59 + (if L then 1 else 0)" "monthStart 3 L = 90 + (if L then 1 else 0)"
  "monthStart 4 L = 120 + (if L then 1 else 0)" "monthStart 5 L = 151 + (if L then 1 else 0)"
  "monthStart 6 L = 181 + (if L then 1 else 0)" "monthStart 7 L = 212 + (if L then 1 else 0)"
  "monthStart 8 L = 243 + (if L then 1 else 0)" "monthStart 9 L = 273 + (if L then 1 else 0)"
  "monthStart 10 L = 304 + (if L then 1 else 0)" "monthStart 11 L = 334 + (if L then 1 else 0)"
  by (simp_all add: monthStart_def)

lemma month_cases:
  fixes m :: int
  assumes "1 \<le> m" "m \<le> 12"
  obtains "m = 1" | "m = 2" | "m = 3" | "m = 4" | "m = 5" | "m = 6"
        | "m = 7" | "m = 8" | "m = 9" | "m = 10" | "m = 11" | "m = 12"
proof -
  have "m = 1 \<or> m = 2 \<or> m = 3 \<or> m = 4 \<or> m = 5 \<or> m = 6
      \<or> m = 7 \<or> m = 8 \<or> m = 9 \<or> m = 10 \<or> m = 11 \<or> m = 12"
    using assms by arith
  then show ?thesis using that by fastforce
qed

lemma DaysInYear_leap: "DaysInYear y = (if InLeapYear y then 366 else 365)"
  by (simp add: InLeapYear_def DaysInYear_def)

lemma day_in_year:
  assumes "calendar_day y m d"
  shows "0 \<le> monthStart (m - 1) (InLeapYear y) + d - 1
       \<and> monthStart (m - 1) (InLeapYear y) + d - 1 < DaysInYear y
       \<and> MonthFromDayInYear (monthStart (m - 1) (InLeapYear y) + d - 1) (InLeapYear y) = m - 1"
proof -
  have m: "1 \<le> m" "m \<le> 12" and d: "1 \<le> d" "d \<le> DaysInMonth y m"
    using assms by (simp_all add: calendar_day_def)
  from m show ?thesis
  proof (cases rule: month_cases)
    case 1 with d show ?thesis
      by (simp add: monthStart_simps DaysInMonth_def DaysInYear_leap MonthFromDayInYear_def)
  next
    case 2 with d show ?thesis
      by (simp add: monthStart_simps DaysInMonth_def DaysInYear_leap MonthFromDayInYear_def split: if_splits)
  next
    case 3 with d show ?thesis
      by (simp add: monthStart_simps DaysInMonth_def DaysInYear_leap MonthFromDayInYear_def)
  next
    case 4 with d show ?thesis
      by (simp add: monthStart_simps DaysInMonth_def DaysInYear_leap MonthFromDayInYear_def)
  next
    case 5 with d show ?thesis
      by (simp add: monthStart_simps DaysInMonth_def DaysInYear_leap MonthFromDayInYear_def)
  next
    case 6 with d show ?thesis
      by (simp add: monthStart_simps DaysInMonth_def DaysInYear_leap MonthFromDayInYear_def)
  next
    case 7 with d show ?thesis
      by (simp add: monthStart_simps DaysInMonth_def DaysInYear_leap MonthFromDayInYear_def)
  next
    case 8 with d show ?thesis
      by (simp add: monthStart_simps DaysInMonth_def DaysInYear_leap MonthFromDayInYear_def)
  next
    case 9 with d show ?thesis
      by (simp add: monthStart_simps DaysInMonth_def DaysInYear_leap MonthFromDayInYear_def)
  next
    case 10 with d show ?thesis
      by (simp add: monthStart_simps DaysInMonth_def DaysInYear_leap MonthFromDayInYear_def)
  next
    case 11 with d show ?thesis
      by (simp add: monthStart_simps DaysInMonth_def DaysInYear_leap MonthFromDayInYear_def)
  next
    case 12 with d show ?thesis
      by (simp add: monthStart_simps DaysInMonth_def DaysInYear_leap MonthFromDayInYear_def)
  qed
qed

lemma Day_midnight: "Day (n * msPerDay) = n"
  by (simp add: Day_def msPerDay_def)

lemma MakeDay_calendar:
  assumes "1 \<le> m" "m \<le> 12"
  shows "MakeDay y (m - 1) d = DayFromYear y + monthStart (m - 1) (InLeapYear y) + d - 1"
proof -
  have "(m - 1) div 12 = 0" "(m - 1) mod 12 = m - 1" using assms by simp_all
  then show ?thesis by (simp add: MakeDay_def)
qed

lemma fields_of_MakeDay:
  assumes "calendar_day y m d"
  defines "t \<equiv> MakeDay y (m - 1) d * msPerDay"
  shows "YearFromTime t = y" "MonthFromTime t = m - 1" "DateFromTime t = d"
proof -
  let ?dy = "monthStart (m - 1) (InLeapYear y) + d - 1"
  have m: "1 \<le> m" "m \<le> 12" using assms(1) by (simp_all add: calendar_day_def)
  have day: "Day t = DayFromYear y + ?dy"
    unfolding t_def Day_midnight MakeDay_calendar[OF m] by simp
  have dy: "0 \<le> ?dy" "?dy < DaysInYear y"
    and mo: "MonthFromDayInYear ?dy (InLeapYear y) = m - 1"
    using day_in_year[OF assms(1)] by simp_all
  have "DayFromYear y \<le> Day t" "Day t < DayFromYear (y + 1)"
    using day dy by (simp_all add: DayFromYear_step)
  then have yd: "YearFromDay (Day t) = y" by (rule YearFromDay_unique)
  then show y: "YearFromTime t = y" by (simp add: YearFromTime_def)
  have dwy: "DayWithinYear t = ?dy" by (simp add: DayWithinYear_def y day)
  show mt: "MonthFromTime t = m - 1" by (simp add: MonthFromTime_def dwy y mo)
  show "DateFromTime t = d" by (simp add: DateFromTime_def dwy y mt)
qed


section \<open>Checking and formatting the date\<close>

lemma split_no_sep: "sep \<notin> set xs \<Longrightarrow> split sep xs = [xs]"
  by (induction xs) auto

lemma split_at_sep: "sep \<notin> set xs \<Longrightarrow> split sep (xs @ sep # rest) = xs # split sep rest"
  by (induction xs) (auto split: list.splits)

lemma digits_no_minus: "list_all (isRadixDigit 10) xs \<Longrightarrow> CHR ''-'' \<notin> set xs"
  using digit_not_sign by (auto simp: list_all_iff)

lemma split_ymd:
  assumes "list_all (isRadixDigit 10) ys" "list_all (isRadixDigit 10) ms" "list_all (isRadixDigit 10) ds"
  shows "split CHR ''-'' (ys @ ''-'' @ ms @ ''-'' @ ds) = [ys, ms, ds]"
  using assms by (simp add: split_at_sep split_no_sep digits_no_minus)

lemma MakeDay_range:
  assumes "calendar_day y m d" "0 \<le> y" "y \<le> 9999"
  shows "- 720000 \<le> MakeDay y (m - 1) d" "MakeDay y (m - 1) d \<le> 3000000"
proof -
  let ?dy = "monthStart (m - 1) (InLeapYear y) + d - 1"
  have m: "1 \<le> m" "m \<le> 12" using assms(1) by (simp_all add: calendar_day_def)
  have md: "MakeDay y (m - 1) d = DayFromYear y + ?dy" using MakeDay_calendar[OF m] by simp
  have dy: "0 \<le> ?dy" "?dy < DaysInYear y" using day_in_year[OF assms(1)] by simp_all
  have dy2: "?dy \<le> 366" using dy(2) DaysInYear_leap[of y] by (simp split: if_splits)
  have "146097 * (0 - 1970) \<le> 146097 * (y - 1970)" using assms(2) by simp
  then have lo: "- 288000000 \<le> 400 * DayFromYear y" using DayFromYear_lower[of y] by simp
  have "146097 * (y - 1970) \<le> 146097 * (9999 - 1970)" using assms(3) by simp
  then have hi: "400 * DayFromYear y \<le> 1199000000" using DayFromYear_upper[of y] by simp
  show "- 720000 \<le> MakeDay y (m - 1) d" unfolding md using lo dy(1) by simp
  show "MakeDay y (m - 1) d \<le> 3000000" unfolding md using hi dy2 by simp
qed

lemma checkDate_digits:
  assumes len: "length ys = 4" "length ms = 2" "length ds = 2"
    and dig: "list_all (isRadixDigit 10) ys" "list_all (isRadixDigit 10) ms"
             "list_all (isRadixDigit 10) ds"
    and cal: "calendar_day (int (radixValue 10 ys)) (int (radixValue 10 ms)) (int (radixValue 10 ds))"
    and year: "100 \<le> radixValue 10 ys"
    and off: "\<bar>tzOffset rt (MakeDay (int (radixValue 10 ys)) (int (radixValue 10 ms) - 1)
                 (int (radixValue 10 ds)) * msPerDay)\<bar> \<le> 1440"
    and stable: "tzOffset rt (MakeDay (int (radixValue 10 ys)) (int (radixValue 10 ms) - 1)
                     (int (radixValue 10 ds)) * msPerDay
                   + tzOffset rt (MakeDay (int (radixValue 10 ys)) (int (radixValue 10 ms) - 1)
                       (int (radixValue 10 ds)) * msPerDay) * 60000)
                 = tzOffset rt (MakeDay (int (radixValue 10 ys)) (int (radixValue 10 ms) - 1)
                     (int (radixValue 10 ds)) * msPerDay)"
  shows "checkDate rt now (JStr (ys @ ''-'' @ ms @ ''-'' @ ds)) =
           Inr (dayNames ! nat (weekday_of (int (radixValue 10 ys)) (int (radixValue 10 ms))
                                  (int (radixValue 10 ds)))
                @ '' '' @ monthNames ! nat (int (radixValue 10 ms) - 1)
                @ '' '' @ ds @ '' '' @ ys)"
proof -
  let ?Y = "int (radixValue 10 ys)" and ?M = "int (radixValue 10 ms)"
    and ?D = "int (radixValue 10 ds)"
  let ?t = "MakeDay ?Y (?M - 1) ?D * msPerDay"
  let ?o = "tzOffset rt ?t"
  have ne: "ys \<noteq> []" "ms \<noteq> []" "ds \<noteq> []" using len by auto
  have Y: "0 \<le> ?Y" "?Y \<le> 9999"
    using radixValue_bound[OF dig(1)] len(1) by simp_all
  have notquirk: "\<not> (0 \<le> ?Y \<and> ?Y \<le> 99)" using year by simp
  have parts: "split CHR ''-'' (ys @ ''-'' @ ms @ ''-'' @ ds) = [ys, ms, ds]"
    using dig by (rule split_ymd)
  have py: "parseInt1 (part [ys, ms, ds] 0) = Fin ?Y"
    by (simp add: part_def parseInt1_def parseIntStr_digits_noradix[OF ne(1) dig(1)])
  have pm: "minus1 (parseInt1 (part [ys, ms, ds] 1)) = Fin (?M - 1)"
    by (simp add: part_def parseInt1_def minus1_def parseIntStr_digits_noradix[OF ne(2) dig(2)])
  have pd: "parseInt1 (part [ys, ms, ds] 2) = Fin ?D"
    by (simp add: part_def parseInt1_def parseIntStr_digits_noradix[OF ne(3) dig(3)])
  have rng: "- 720000 \<le> MakeDay ?Y (?M - 1) ?D" "MakeDay ?Y (?M - 1) ?D \<le> 3000000"
    using MakeDay_range[OF cal Y] by simp_all
  have trng: "- 62208000000000 \<le> ?t" "?t \<le> 259200000000000"
    using rng by (simp_all add: msPerDay_def)
  have clip1: "TimeClip ?t = Fin ?t" using trng by (simp add: TimeClip_def)
  have utc: "Date_UTC (Fin ?Y) (Fin (?M - 1)) (Fin ?D) = Fin ?t"
    using notquirk clip1 by (simp add: Date_UTC_def)
  have orng: "- 86400000 \<le> ?o * 60000" "?o * 60000 \<le> 86400000" using off by simp_all
  have clip2: "TimeClip (?t + ?o * 60000) = Fin (?t + ?o * 60000)"
    using trng orng by (simp add: TimeClip_def)
  have loc: "LocalTime rt (?t + ?o * 60000) = ?t"
    by (simp add: LocalTime_def stable)
  have trut: "truthy (JStr (ys @ ''-'' @ ms @ ''-'' @ ds))" by simp
  have cd: "checkDate rt now (JStr (ys @ ''-'' @ ms @ ''-'' @ ds)) = Inr (DateString ?t)"
    using parts py pm pd
    by (simp add: checkDate_def Let_def utc getTimezoneOffset_def clip2 toDateString_def loc)
  have f: "YearFromTime ?t = ?Y" "MonthFromTime ?t = ?M - 1" "DateFromTime ?t = ?D"
    using fields_of_MakeDay[OF cal] by simp_all
  have wd: "WeekDay ?t = weekday_of ?Y ?M ?D"
    by (simp add: WeekDay_def Day_midnight weekday_of_def)
  have p2: "pad_zero 2 (decimal (radixValue 10 ds)) = ds"
    using pad_decimal_radixValue[OF dig(3) ne(3)] len(3) by simp
  have p4: "pad_zero 4 (decimal (radixValue 10 ys)) = ys"
    using pad_decimal_radixValue[OF dig(1) ne(1)] len(1) by simp
  have "DateString ?t = dayNames ! nat (weekday_of ?Y ?M ?D) @ '' '' @ monthNames ! nat (?M - 1)
                @ '' '' @ ds @ '' '' @ ys"
    unfolding DateString_def Let_def f wd using Y(1) by (simp add: p2 p4)
  with cd show ?thesis by simp
qed

text \<open>
  \<open>checkDate("2023-01-01")\<close> is \<open>"Sun Jan 01 2023"\<close>, and for every \<open>yyyy-mm-dd\<close>
  that names a calendar day of the years 0100 to 9999 the result names the same day: its
  weekday, its month, and the \<open>dd\<close> and \<open>yyyy\<close> of the input. This holds on every
  runtime whose offset at midnight UTC of that day is settled, whatever the offset is; a
  zone with a fixed offset is always so.
\<close>

theorem checkDate_same_calendar_day:
  "(offset_settled rt (utc_midnight 2023 1 1) \<longrightarrow>
      checkDate rt now (JStr ''2023-01-01'') = Inr ''Sun Jan 01 2023'')
   \<and> (let y = int (radixValue 10 ys); m = int (radixValue 10 ms); d = int (radixValue 10 ds)
      in length ys = 4 \<and> length ms = 2 \<and> length ds = 2
         \<and> list_all (isRadixDigit 10) (ys @ ms @ ds)
         \<and> calendar_day y m d \<and> 100 \<le> y \<and> offset_settled rt (utc_midnight y m d) \<longrightarrow>
         checkDate rt now (JStr (ys @ ''-'' @ ms @ ''-'' @ ds)) =
           Inr (dayNames ! nat (weekday_of y m d) @ '' '' @ monthNames ! nat (m - 1)
                @ '' '' @ ds @ '' '' @ ys))"
proof (intro conjI impI)
  assume s: "offset_settled rt (utc_midnight 2023 1 1)"
  have v: "radixValue 10 ''2023'' = 2023" "radixValue 10 ''01'' = 1" by code_simp+
  have cal: "calendar_day 2023 1 1" by code_simp
  have dig: "list_all (isRadixDigit 10) ''2023''" "list_all (isRadixDigit 10) ''01''"
    by code_simp+
  have names: "dayNames ! nat (weekday_of 2023 1 1) = ''Sun''" "monthNames ! nat (1 - 1) = ''Jan''"
    by code_simp+
  show "checkDate rt now (JStr ''2023-01-01'') = Inr ''Sun Jan 01 2023''"
    using checkDate_digits[of "''2023''" "''01''" "''01''" rt now] s dig cal names
    by (simp add: v offset_settled_def utc_midnight_def)
next
  show "let y = int (radixValue 10 ys); m = int (radixValue 10 ms); d = int (radixValue 10 ds)
      in length ys = 4 \<and> length ms = 2 \<and> length ds = 2
         \<and> list_all (isRadixDigit 10) (ys @ ms @ ds)
         \<and> calendar_day y m d \<and> 100 \<le> y \<and> offset_settled rt (utc_midnight y m d) \<longrightarrow>
         checkDate rt now (JStr (ys @ ''-'' @ ms @ ''-'' @ ds)) =
           Inr (dayNames ! nat (weekday_of y m d) @ '' '' @ monthNames ! nat (m - 1)
                @ '' '' @ ds @ '' '' @ ys)"
    unfolding Let_def
  proof (intro impI, elim conjE)
    assume a: "length ys = 4" "length ms = 2" "length ds = 2"
      "list_all (isRadixDigit 10) (ys @ ms @ ds)"
      "calendar_day (int (radixValue 10 ys)) (int (radixValue 10 ms)) (int (radixValue 10 ds))"
      "100 \<le> int (radixValue 10 ys)"
      "offset_settled rt (utc_midnight (int (radixValue 10 ys)) (int (radixValue 10 ms))
          (int (radixValue 10 ds)))"
    from a(4) have dig: "list_all (isRadixDigit 10) ys" "list_all (isRadixDigit 10) ms"
      "list_all (isRadixDigit 10) ds" by simp_all
    from a(6) have yr: "100 \<le> radixValue 10 ys" by simp
    from a(7) show "checkDate rt now (JStr (ys @ ''-'' @ ms @ ''-'' @ ds)) =
        Inr (dayNames ! nat (weekday_of (int (radixValue 10 ys)) (int (radixValue 10 ms))
                               (int (radixValue 10 ds)))
             @ '' '' @ monthNames ! nat (int (radixValue 10 ms) - 1) @ '' '' @ ds @ '' '' @ ys)"
      unfolding offset_settled_def utc_midnight_def
      by (intro checkDate_digits a(1-3) dig a(5) yr) simp_all
  qed
qed

lemma offset_settled_fixed_zone: "offset_settled (fixed_zone off) t \<longleftrightarrow> \<bar>off\<bar> \<le> 1440"
  by (simp add: offset_settled_def fixed_zone_def)

theorem checkDate_same_calendar_day_witness:
  "offset_settled (fixed_zone (- 330)) (utc_midnight 2024 2 29)
   \<and> calendar_day 2024 2 29
   \<and> checkDate (fixed_zone (- 330)) 0 (JStr ''2024-02-29'') = Inr ''Thu Feb 29 2024''
   \<and> offset_settled (fixed_zone 300) (utc_midnight 2023 1 1)
   \<and> checkDate (fixed_zone 300) 0 (JStr ''2023-01-01'') = Inr ''Sun Jan 01 2023''"
proof -
  have v: "radixValue 10 ''2024'' = 2024" "radixValue 10 ''02'' = 2" "radixValue 10 ''29'' = 29"
    by code_simp+
  have cal: "calendar_day 2024 2 29" by code_simp
  have dig: "list_all (isRadixDigit 10) (''2024'' @ ''02'' @ ''29'')" by code_simp
  have names: "dayNames ! nat (weekday_of 2024 2 29) = ''Thu''" "monthNames ! nat (2 - 1) = ''Feb''"
    by code_simp+
  have s1: "offset_settled (fixed_zone (- 330)) (utc_midnight 2024 2 29)"
    and s2: "offset_settled (fixed_zone 300) (utc_midnight 2023 1 1)"
    by (simp_all add: offset_settled_fixed_zone)
  show ?thesis
    using checkDate_same_calendar_day[of "fixed_zone (- 330)" 0 "''2024''" "''02''" "''29''"]
      checkDate_same_calendar_day[of "fixed_zone 300" 0 "''2024''" "''02''" "''29''"]
      s1 s2 cal dig names
    by (simp add: v Let_def)
qed

text \<open>
  Claim C4. The date \<open>2023-01-01\<close> is to come out as \<open>Sun Jan 01 2023\<close>, and every
  \<open>yyyy-mm-dd\<close> as the same calendar day whatever the offset of the local zone. The
  offset that \<open>checkDate\<close> adds is the one in force at midnight UTC of the day, not
  the one in force at local midnight: where the clocks went forward at local midnight,
  the first day of summer time comes out as the day before. And a year written \<open>0050\<close>
  comes out as 1950.
\<close>

theorem checkDate_shifted_day:
  "calendar_day 2022 3 27
   \<and> checkDate spring_forward_zone 0 (JStr ''2022-03-27'') = Inr ''Sat Mar 26 2022''
   \<and> checkDate spring_forward_zone 0 (JStr ''2022-03-28'') = Inr ''Mon Mar 28 2022''
   \<and> calendar_day 50 1 1
   \<and> checkDate (fixed_zone 0) 0 (JStr ''0050-01-01'') = Inr ''Sun Jan 01 1950''"
  by code_simp

section \<open>The stores of the examples\<close>

lemma alice_valid: "castObjectId alice = Some alice"
  by code_simp

lemma alice_store_eq:
  "alice_store =
     \<lparr>users = [\<lparr>u_id = alice, u_username = ''Alice'', u_v = 0, u_log = []\<rparr>], exercises = []\<rparr>"
  by (simp add: alice_store_def createUser_def User_create_def empty_store_def respond_def
      Let_def)

lemma alice_ran_eq:
  "alice_ran =
     \<lparr>users = [\<lparr>u_id = alice, u_username = ''Alice'', u_v = 1,
                 u_log = [entry 1675141200000]\<rparr>],
      exercises = [entry 1675141200000]\<rparr>"
  by code_simp

lemma findOne_alice_ran:
  "User_findOne later 0 alice_ran alice =
     Inr (Some \<lparr>u_id = alice, u_username = ''Alice'', u_v = 1, u_log = [entry 1675141200000]\<rparr>)"
  by (simp add: User_findOne_def alice_valid alice_ran_eq later_def)

section \<open>Filtering and limiting the log\<close>

lemma filterLog_unlimited:
  "filterLog rt logs JUndefined JUndefined JUndefined = Inr logs"
  by (simp add: filterLog_def)

text \<open>
  With both bounds present and valid, the entries kept are those whose instant lies
  between the instants of the bounds, in the order they had.
\<close>

lemma filterLog_range:
  assumes "truthy from" "truthy to" "newDate rt from = Inr (Fin a)" "newDate rt to = Inr (Fin b)"
  shows "filterLog rt logs from to JUndefined =
           Inr (filter (\<lambda>log. a \<le> ex_date log \<and> ex_date log \<le> b) logs)"
  using assms by (simp add: filterLog_def date_ge_def date_le_def)

lemma newDate_jan: 
  "newDate rt (JStr ''2023-01-01'') = Inr (Fin 1672531200000)"
  "newDate rt (JStr ''2023-01-31'') = Inr (Fin 1675123200000)"
  by (simp_all add: newDate_def Date_parse_def, code_simp+)


lemma filterLog_no_limit_range:
  "truthy from \<noteq> truthy to \<Longrightarrow> filterLog rt logs from to limit = filterLog rt logs JUndefined JUndefined limit"
  by (auto simp: filterLog_def)


text \<open>
  Claim C6. When exactly one of \<open>from\<close> and \<open>to\<close> is present, no entry is filtered by
  date: the filter, and so the whole answer, is the one obtained with neither bound.
\<close>

theorem filterLog_lone_bound:
  assumes "truthy from \<noteq> truthy to"
  shows "filterLog rt logs from to limit = filterLog rt logs JUndefined JUndefined limit
       \<and> getLogs rt c st userId from to limit = getLogs rt c st userId JUndefined JUndefined limit"
  unfolding getLogs_def filterLog_no_limit_range[OF assms] by simp

theorem filterLog_lone_bound_witness:
  "truthy (JStr ''2023-02-01'') \<noteq> truthy JUndefined
   \<and> filterLog (fixed_zone 0) [entry 1675141200000, entry 0] (JStr ''2023-02-01'') JUndefined
        JUndefined = Inr [entry 1675141200000, entry 0]"
proof -
  have h: "truthy (JStr ''2023-02-01'') \<noteq> truthy JUndefined" by simp
  show ?thesis
    using h filterLog_lone_bound[OF h, of "fixed_zone 0" "[entry 1675141200000, entry 0]"
        JUndefined later alice_ran alice]
    by (simp add: filterLog_unlimited)
qed

text \<open>
  Claim C7. When \<open>limit\<close> is present and parses to an integer \<open>n \<ge> 0\<close>, the result is the
  first \<open>n\<close> entries of the sequence left by the date range, in the same order, and the
  whole sequence when it has at most \<open>n\<close> entries.
\<close>

theorem filterLog_limit:
  assumes "truthy limit" "parseInt limit (Some 10) = Inr (Fin n)" "0 \<le> n"
    and "filterLog rt logs from to JUndefined = Inr ranged"
  shows "filterLog rt logs from to limit = Inr (take (nat n) ranged)
       \<and> (length ranged \<le> nat n \<longrightarrow> filterLog rt logs from to limit = Inr ranged)"
proof -
  have "filterLog rt logs from to limit = Inr (take (nat n) ranged)"
    using assms by (auto simp: filterLog_def slice0_def split: sum.splits if_splits)
  then show ?thesis by simp
qed

theorem filterLog_limit_witness:
  "truthy (JStr ''2'') \<and> parseInt (JStr ''2'') (Some 10) = Inr (Fin 2)
   \<and> filterLog (fixed_zone 0) [entry 30, entry 10, entry 20] JUndefined JUndefined (JStr ''2'')
       = Inr [entry 30, entry 10]
   \<and> filterLog (fixed_zone 0) [entry 30] JUndefined JUndefined (JStr ''2'') = Inr [entry 30]"
proof -
  have t: "truthy (JStr ''2'')" by simp
  have p: "parseInt (JStr ''2'') (Some 10) = Inr (Fin 2)" by code_simp
  have z: "(0::int) \<le> 2" by simp
  show ?thesis
    using t p
      filterLog_limit[OF t p z filterLog_unlimited, of "fixed_zone 0" "[entry 30, entry 10, entry 20]"]
      filterLog_limit[OF t p z filterLog_unlimited, of "fixed_zone 0" "[entry 30]"]
    by simp
qed

text \<open>
  Claim C2. With both bounds present the filter is meant to keep exactly the entries
  whose day lies from \<open>from\<close> to \<open>to\<close>, whatever their time of day. On a server five
  hours west of Greenwich the run that Alice logged for 31 January 2023 is stored as
  2023-01-31T05:00:00Z; her log shows it, and the range from 2023-01-01 to 2023-01-31,
  whose upper bound is 2023-01-31T00:00:00Z, leaves it out.
\<close>

theorem getLogs_drops_last_day:
  "u_log (hd (users alice_ran)) = [entry 1675141200000]
   \<and> toDateString (fixed_zone 300) (Fin 1675141200000) = ''Tue Jan 31 2023''
   \<and> getLogs (fixed_zone 300) later alice_ran alice JUndefined JUndefined JUndefined
       = respond (LogReport alice ''Alice'' 1 [(''run'', 30, ''Tue Jan 31 2023'')]) alice_ran
   \<and> getLogs (fixed_zone 300) later alice_ran alice (JStr ''2023-01-01'') (JStr ''2023-01-31'')
        JUndefined
       = respond (LogReport alice ''Alice'' 0 []) alice_ran"
proof -
  have d: "toDateString (fixed_zone 300) (Fin 1675141200000) = ''Tue Jan 31 2023''"
    by code_simp
  have r: "filterLog (fixed_zone 300) [entry 1675141200000] (JStr ''2023-01-01'')
             (JStr ''2023-01-31'') JUndefined = Inr []"
    by (simp add: filterLog_range[OF _ _ newDate_jan] entry_def)
  have all: "getLogs (fixed_zone 300) later alice_ran alice JUndefined JUndefined JUndefined
       = respond (LogReport alice ''Alice'' 1 [(''run'', 30, ''Tue Jan 31 2023'')]) alice_ran"
    by (simp add: getLogs_def findOne_alice_ran filterLog_unlimited) (simp add: entry_def d)
  have none: "getLogs (fixed_zone 300) later alice_ran alice (JStr ''2023-01-01'')
        (JStr ''2023-01-31'') JUndefined = respond (LogReport alice ''Alice'' 0 []) alice_ran"
    by (simp add: getLogs_def findOne_alice_ran r)
  have l: "u_log (hd (users alice_ran)) = [entry 1675141200000]" by (simp add: alice_ran_eq)
  show ?thesis using l d all none by simp
qed

section \<open>Reading a log\<close>

text \<open>
  Claim C5. A request for the log of a user that does not exist is meant to get a
  not-found answer. With an identifier that is not an ObjectId, as \<open>abc\<close>, the lookup
  itself fails and the answer is the message of the \<open>catch\<close> block; the handler that
  adds an exercise tests the identifier first and answers \<open>Invalid user ID.\<close>
\<close>

theorem getLogs_malformed_id:
  "getLogs rt c st ''abc'' from to limit = respond (Text ''Could not get user las log data.'') st"
  by (simp add: getLogs_def User_findOne_def castObjectId_def)

lemma addExercise_malformed_id:
  "addExercise lib rt c st ''abc'' description duration date
     = respond (Text ''Invalid user ID.'') st"
  by (simp add: addExercise_def ObjectId_isValid_def castObjectId_def)

text \<open>
  A well-formed identifier of no user gets \<open>User not found.\<close>, and the count of a log
  that is returned is the number of entries left by the filter.
\<close>


lemma getLogs_not_found:
  assumes "storeFails c \<noteq> Some 0" "castObjectId userId = Some oid" "oid \<notin> set (map u_id (users st))"
  shows "getLogs rt c st userId from to limit = respond (Text ''User not found.'') st"
proof -
  have "find (\<lambda>u. u_id u = oid) (users st) = None"
    using assms(3) by (auto simp: find_None_iff)
  then show ?thesis using assms(1,2) by (simp add: getLogs_def User_findOne_def)
qed

lemma getLogs_found:
  assumes "User_findOne c 0 st userId = Inr (Some user)"
    and "filterLog rt (u_log user) from to limit = Inr logs"
  shows "getLogs rt c st userId from to limit =
           respond (LogReport userId (u_username user) (length logs)
             (map (\<lambda>log. (ex_description log, ex_duration log, toDateString rt (Fin (ex_date log)))) logs)) st"
  using assms by (simp add: getLogs_def)


text \<open>
  Claim C10. For an existing user, when \<open>limit\<close> is truthy, so not the empty string
  of \<open>?limit=\<close>, and \<open>parseInt(limit, 10)\<close> is \<open>NaN\<close>, as for \<open>abc\<close>, and the date
  range is applied without an exception, the log returned is empty and the count is 0,
  whatever the log of the user holds and whatever the date range leaves.
\<close>

theorem getLogs_unparsable_limit:
  assumes "User_findOne c 0 st userId = Inr (Some user)"
    and "truthy limit" "parseInt limit (Some 10) = Inr NaN"
    and "filterLog rt (u_log user) from to JUndefined = Inr ranged"
  shows "getLogs rt c st userId from to limit = respond (LogReport userId (u_username user) 0 []) st"
proof -
  have "filterLog rt (u_log user) from to limit = Inr []"
    using assms(2-4) by (auto simp: filterLog_def slice0_def split: sum.splits if_splits)
  then show ?thesis using assms(1) by (simp add: getLogs_def)
qed

theorem getLogs_unparsable_limit_witness:
  "truthy (JStr ''abc'') \<and> parseInt (JStr ''abc'') (Some 10) = Inr NaN
   \<and> u_log (hd (users alice_ran)) \<noteq> []
   \<and> getLogs (fixed_zone 300) later alice_ran alice JUndefined JUndefined (JStr ''abc'')
       = respond (LogReport alice ''Alice'' 0 []) alice_ran"
proof -
  have t: "truthy (JStr ''abc'')" by simp
  have p: "parseInt (JStr ''abc'') (Some 10) = Inr NaN" by code_simp
  have n: "u_log (hd (users alice_ran)) \<noteq> []" by (simp add: alice_ran_eq)
  show ?thesis
    using t p n getLogs_unparsable_limit[OF findOne_alice_ran t p filterLog_unlimited]
    by simp
qed

text \<open>
  A limit that is present and is no integer does not always empty the log: the empty
  limit of \<open>?limit=\<close> is not applied and the whole log is returned; a limit or a bound
  that is an object with a \<open>toString\<close> property of its own cannot be converted, and
  the answer is the message of the \<open>catch\<close> block.
\<close>

theorem getLogs_limit_not_applied:
  "parseInt (JStr []) (Some 10) = Inr NaN
   \<and> getLogs (fixed_zone 300) later alice_ran alice JUndefined JUndefined (JStr [])
       = respond (LogReport alice ''Alice'' 1 [(''run'', 30, ''Tue Jan 31 2023'')]) alice_ran
   \<and> getLogs (fixed_zone 300) later alice_ran alice JUndefined JUndefined
        (JObj [(''toString'', JStr ''x'')])
       = respond (Text ''Could not get user las log data.'') alice_ran
   \<and> getLogs (fixed_zone 300) later alice_ran alice (JObj [(''toString'', JStr ''x'')])
        (JStr ''2023-01-31'') (JStr ''abc'')
       = respond (Text ''Could not get user las log data.'') alice_ran"
proof -
  have p: "parseInt (JStr []) (Some 10) = Inr NaN" by code_simp
  have d: "toDateString (fixed_zone 300) (Fin 1675141200000) = ''Tue Jan 31 2023''"
    by code_simp
  have a: "getLogs (fixed_zone 300) later alice_ran alice JUndefined JUndefined (JStr [])
       = respond (LogReport alice ''Alice'' 1 [(''run'', 30, ''Tue Jan 31 2023'')]) alice_ran"
    by (simp add: getLogs_def findOne_alice_ran filterLog_def) (simp add: entry_def d)
  have b: "getLogs (fixed_zone 300) later alice_ran alice JUndefined JUndefined
        (JObj [(''toString'', JStr ''x'')])
       = respond (Text ''Could not get user las log data.'') alice_ran"
    by (simp add: getLogs_def findOne_alice_ran filterLog_def parseInt_def)
  have c: "getLogs (fixed_zone 300) later alice_ran alice (JObj [(''toString'', JStr ''x'')])
        (JStr ''2023-01-31'') (JStr ''abc'')
       = respond (Text ''Could not get user las log data.'') alice_ran"
    by (simp add: getLogs_def findOne_alice_ran filterLog_def newDate_def)
  show ?thesis using p a b c by simp
qed

section \<open>Adding an exercise\<close>

text \<open>
  Claim C3. A request to add an exercise for an existing user is meant to fail
  validation only when the description or the duration is missing or the duration is
  invalid, and to succeed with a duration of 0. The validator accepts 0, and the string
  \<open>"0"\<close> is added; the Number 0 of a JSON body is answered \<open>Missing fields.\<close>, as
  \<open>!duration\<close> is true of it, and nothing is added.
\<close>

theorem addExercise_zero_duration:
  "User_findById later 0 alice_store alice
     = Inr (Some \<lparr>u_id = alice, u_username = ''Alice'', u_v = 0, u_log = []\<rparr>)
   \<and> isValidDuration (JNum 0) = Inr True
   \<and> addExercise int_numbers (fixed_zone 0) later alice_store alice (JStr ''rest'') (JNum 0)
        JUndefined
       = respond (Text ''Missing fields.'') alice_store
   \<and> fst (addExercise int_numbers (fixed_zone 0) later alice_store alice (JStr ''rest'')
        (JStr ''0'') JUndefined)
       = Some (res_json (ExerciseAdded alice ''Alice'' ''rest'' 0 ''Thu Feb 02 2023''))"
proof (intro conjI)
  show "User_findById later 0 alice_store alice
     = Inr (Some \<lparr>u_id = alice, u_username = ''Alice'', u_v = 0, u_log = []\<rparr>)"
    by (simp add: User_findById_def User_findOne_def alice_valid alice_store_eq later_def)
  show "isValidDuration (JNum 0) = Inr True" by code_simp
  show "addExercise int_numbers (fixed_zone 0) later alice_store alice (JStr ''rest'') (JNum 0)
        JUndefined = respond (Text ''Missing fields.'') alice_store"
    by (simp add: addExercise_def ObjectId_isValid_def alice_valid checkDate_def)
  show "fst (addExercise int_numbers (fixed_zone 0) later alice_store alice (JStr ''rest'')
        (JStr ''0'') JUndefined)
       = Some (res_json (ExerciseAdded alice ''Alice'' ''rest'' 0 ''Thu Feb 02 2023''))"
    by code_simp
qed

theorem addExercise_zero_duration_witness:
  "truthy (JStr ''rest'') \<and> \<not> truthy (JNum 0)
   \<and> addExercise int_numbers (fixed_zone 0) later alice_store alice (JStr ''rest'') (JNum 0)
        JUndefined
       = (Some \<lparr>status = 200, body = Text ''Missing fields.''\<rparr>, alice_store)"
  using addExercise_zero_duration by (simp add: respond_def res_json_def)

text \<open>
  The rest of the handler: a falsy description or duration is answered
  \<open>Missing fields.\<close>; and once the checks have passed, the user is found, the exercise
  is created and the user is saved, the answer carries the fields of the new exercise
  and the log of the user ends with it.
\<close>

lemma addExercise_missing:
  assumes "ObjectId_isValid param_id" "checkDate rt (clock c) date0 = Inr date"
    and "\<not> truthy duration \<or> \<not> truthy description"
  shows "addExercise lib rt c st param_id description duration date0
           = respond (Text ''Missing fields.'') st"
  using assms by (auto simp: addExercise_def)

lemma addExercise_added:
  assumes "ObjectId_isValid param_id" "checkDate rt (clock c) date0 = Inr date"
    and "truthy duration" "truthy description" "isValidDuration duration = Inr True"
    and "User_findById c 0 st param_id = Inr (Some user)"
    and "Exercise_create lib rt c 1 st param_id description duration date = Inr (newExercise, st1)"
    and "User_save lib c 2 st1 (user\<lparr>u_log := u_log user @ [newExercise]\<rparr>) = Inr st2"
  shows "addExercise lib rt c st param_id description duration date0
           = respond (ExerciseAdded (u_id user) (u_username user) (ex_description newExercise)
                        (ex_duration newExercise)
                        (toDateString rt (Fin (ex_date newExercise)))) st2"
  using assms by (simp add: addExercise_def)

lemma User_save_log:
  assumes "User_save lib c k st1 (user\<lparr>u_log := u_log user @ [newExercise]\<rparr>) = Inr st2"
    and "user \<in> set (users st1)"
  shows "\<exists>saved \<in> set (users st2). u_id saved = u_id user
           \<and> u_log saved = u_log user @ [newExercise]"
proof -
  let ?saved = "user\<lparr>u_log := u_log user @ [newExercise], u_v := savedVersion lib (u_v user)\<rparr>"
  have "users st2 = map (\<lambda>u. if u_id u = u_id user then ?saved else u) (users st1)"
    using assms(1) by (auto simp: User_save_def Let_def split: if_splits)
  then have "?saved \<in> set (users st2)" using assms(2) by force
  then show ?thesis by (intro bexI[of _ ?saved]) simp_all
qed

section \<open>The status of the responses\<close>


lemma status_respond: "respond b st = (Some r, st') \<Longrightarrow> status r = 200"
  by (auto simp: respond_def res_json_def)

lemma createUser_status: "createUser c st u = (Some r, st') \<Longrightarrow> status r = 200"
  by (auto simp: createUser_def split: sum.splits prod.splits if_splits dest: status_respond)

lemma listUsers_status: "listUsers c st = (Some r, st') \<Longrightarrow> status r = 200"
  by (auto simp: listUsers_def split: sum.splits dest: status_respond)

lemma getLogs_status: "getLogs rt c st u f t l = (Some r, st') \<Longrightarrow> status r = 200"
  by (auto simp: getLogs_def Let_def split: sum.splits option.splits dest: status_respond)

lemma addExercise_status: "addExercise lib rt c st i d u t = (Some r, st') \<Longrightarrow> status r = 200"
  by (auto simp: addExercise_def split: sum.splits option.splits prod.splits if_splits bool.splits dest: status_respond)


text \<open>
  Claim C8. Every response that a handler of the API sends, for a success or for an
  error, has status 200: only the body tells them apart.
\<close>

theorem handle_status_200:
  "handle lib rt st cr = (Some r, st') \<Longrightarrow> status r = 200"
  by (auto simp: handle_def split: prod.splits request.splits
      dest: createUser_status listUsers_status getLogs_status addExercise_status)

theorem handle_status_200_witness:
  "handle int_numbers (fixed_zone 0) alice_store (later, GetLogs ''abc'' JUndefined JUndefined JUndefined)
     = (Some \<lparr>status = 200, body = Text ''Could not get user las log data.''\<rparr>, alice_store)
   \<and> handle int_numbers (fixed_zone 0) alice_store (later, ListUsers)
     = (Some \<lparr>status = 200, body = UserList [(''Alice'', alice, 0)]\<rparr>, alice_store)"
proof -
  have a: "handle int_numbers (fixed_zone 0) alice_store
             (later, GetLogs ''abc'' JUndefined JUndefined JUndefined)
           = (Some \<lparr>status = 200, body = Text ''Could not get user las log data.''\<rparr>, alice_store)"
    by (simp add: handle_def getLogs_def User_findOne_def castObjectId_def respond_def
        res_json_def later_def)
  have b: "handle int_numbers (fixed_zone 0) alice_store (later, ListUsers)
     = (Some \<lparr>status = 200, body = UserList [(''Alice'', alice, 0)]\<rparr>, alice_store)"
    by (simp add: handle_def listUsers_def User_find_def respond_def res_json_def later_def
        alice_store_eq)
  show ?thesis using a b handle_status_200[OF a] handle_status_200[OF b] by simp
qed

section \<open>The owner of a log entry\<close>


lemma log_owned_iff:
  "log_owned st \<longleftrightarrow> (\<forall>u \<in> set (users st). \<forall>e \<in> set (u_log u). ex_userId e = u_id u)"
  by (simp add: log_owned_def list_all_iff)

lemma users_respond: "snd (respond b st) = st"
  by (simp add: respond_def)

lemma createUser_log_owned:
  assumes "log_owned st"
  shows "log_owned (snd (createUser c st newUsername))"
  using assms
  by (auto simp: createUser_def User_create_def respond_def log_owned_iff Let_def
      split: sum.splits option.splits if_splits)

lemma listUsers_store: "snd (listUsers c st) = st"
  by (simp add: listUsers_def respond_def split: sum.splits)

lemma getLogs_store: "snd (getLogs rt c st userId from to limit) = st"
  by (simp add: getLogs_def respond_def Let_def split: sum.splits option.splits)

lemma Exercise_create_users:
  assumes "Exercise_create lib rt c k st userId description duration date = Inr (newExercise, st1)"
  shows "users st1 = users st \<and> castObjectId userId = Some (ex_userId newExercise)"
  using assms
  by (auto simp: Exercise_create_def Let_def split: if_splits option.splits number.splits)

lemma User_findOne_found:
  assumes "User_findOne c k st userId = Inr (Some user)"
  shows "user \<in> set (users st) \<and> castObjectId userId = Some (u_id user)"
  using assms
  by (auto simp: User_findOne_def find_Some_iff split: if_splits option.splits)

lemma User_save_log_owned:
  assumes "User_save lib c k st1 (user\<lparr>u_log := u_log user @ [newExercise]\<rparr>) = Inr st2"
    and "log_owned st1" "user \<in> set (users st1)" "ex_userId newExercise = u_id user"
  shows "log_owned st2"
  using assms
  by (auto simp: User_save_def Let_def log_owned_iff split: if_splits)

lemma addExercise_log_owned:
  assumes "log_owned st"
  shows "log_owned (snd (addExercise lib rt c st param_id description duration date0))"
proof -
  have owned1: "log_owned st1" if "users st1 = users st" for st1 :: "'a store"
    using assms that by (simp add: log_owned_iff)
  have save: "log_owned st2"
    if f: "User_findById c 0 st param_id = Inr (Some user)"
      and e: "Exercise_create lib rt c 1 st param_id description duration date = Inr (newExercise, st1)"
      and s: "User_save lib c 2 st1 (user\<lparr>u_log := u_log user @ [newExercise]\<rparr>) = Inr st2"
    for user newExercise st1 st2 date
  proof -
    from f have u: "user \<in> set (users st)" "castObjectId param_id = Some (u_id user)"
      using User_findOne_found[of c 0 st param_id user] by (simp_all add: User_findById_def)
    from e have x: "users st1 = users st" "castObjectId param_id = Some (ex_userId newExercise)"
      using Exercise_create_users by blast+
    have "ex_userId newExercise = u_id user" using u(2) x(2) by simp
    then show ?thesis using User_save_log_owned[OF s owned1[OF x(1)]] u(1) x(1) by simp
  qed
  show ?thesis
    using assms
    by (auto simp: addExercise_def respond_def
        split: sum.splits option.splits prod.splits if_splits bool.splits
        intro: save owned1 dest: Exercise_create_users)
qed

lemma handle_log_owned:
  assumes "log_owned st"
  shows "log_owned (snd (handle lib rt st cr))"
proof (cases cr)
  case (Pair c req)
  then show ?thesis
    using assms
    by (cases req)
       (simp_all add: handle_def createUser_log_owned listUsers_store getLogs_store
          addExercise_log_owned)
qed

lemma run_log_owned: "log_owned st \<Longrightarrow> log_owned (run lib rt st crs)"
  by (induction crs arbitrary: st) (simp_all add: handle_log_owned)

lemma createUser_logs:
  "concat (map u_log (users (snd (createUser c st newUsername)))) = concat (map u_log (users st))"
  by (auto simp: createUser_def User_create_def respond_def Let_def
      split: sum.splits option.splits if_splits)


text \<open>
  Claim C9. After every sequence of requests, every exercise in the log of a user has
  the \<open>userId\<close> of that user: each request keeps it so, and only adding an exercise
  changes the entries of the logs.
\<close>

theorem log_owned_invariant:
  "log_owned (run lib rt empty_store crs)
   \<and> (log_owned st \<longrightarrow> log_owned (snd (handle lib rt st cr)))
   \<and> (log_owned st \<longrightarrow> log_owned (run lib rt st crs))
   \<and> (case snd cr of
         AddExercise param_id description duration date \<Rightarrow> True
       | _ \<Rightarrow> concat (map u_log (users (snd (handle lib rt st cr))))
               = concat (map u_log (users st)))"
proof (intro conjI impI)
  have "log_owned (empty_store :: 'a store)" by (simp add: log_owned_def empty_store_def)
  then show "log_owned (run lib rt empty_store crs)" by (rule run_log_owned)
  show "log_owned (snd (handle lib rt st cr))" if "log_owned st"
    using that by (rule handle_log_owned)
  show "log_owned (run lib rt st crs)" if "log_owned st"
    using that by (rule run_log_owned)
  show "case snd cr of
         AddExercise param_id description duration date \<Rightarrow> True
       | _ \<Rightarrow> concat (map u_log (users (snd (handle lib rt st cr))))
               = concat (map u_log (users st))"
    by (cases cr; cases "snd cr")
       (auto simp: handle_def createUser_logs listUsers_store getLogs_store)
qed

theorem log_owned_invariant_witness:
  "log_owned alice_store \<and> log_owned alice_ran
   \<and> concat (map u_log (users alice_ran)) = [entry 1675141200000]
   \<and> ex_userId (entry 1675141200000) = u_id (hd (users alice_ran))"
proof -
  have a: "log_owned alice_store" by (simp add: alice_store_eq log_owned_def)
  have r: "snd (handle int_numbers (fixed_zone 300)
             alice_store
             (\<lparr>clock = 1675200000000, freshId = ''64b7f0c2a1d3e4f5a6b7c8da'',
               storeFails = None\<rparr>,
              AddExercise alice (JStr ''run'') (JNum 30) (JStr ''2023-01-31''))) = alice_ran"
    by (simp add: handle_def alice_ran_def)
  show ?thesis
    using a r
      log_owned_invariant[of int_numbers "fixed_zone 300" "[]" alice_store
        "(\<lparr>clock = 1675200000000, freshId = ''64b7f0c2a1d3e4f5a6b7c8da'', storeFails = None\<rparr>,
          AddExercise alice (JStr ''run'') (JNum 30) (JStr ''2023-01-31''))"]
    by (simp add: alice_ran_eq entry_def)
qed

end
